theory Spec2Isabelle
  imports Complex_Main "HOL-Library.Stream"
begin

section \<open>Data model of the bear-sheep predation simulation\<close>

text \<open>
  The development embeds \<^verbatim>\<open>rpg_bear_sheep/agents.py\<close> and the parts of
  \<^verbatim>\<open>rpg_bear_sheep/model.py\<close> it reads. Python objects live in an explicit store: a
  \<open>Bear\<close> is referred to by its address, the store maps addresses to the object's fields,
  and a fresh object takes the next unused address. Python's floats are idealised as reals,
  Python's unbounded integers are \<open>int\<close>. Every \<^verbatim>\<open>assert\<close> and every exception a
  library call can raise is a branch that returns \<open>Inl\<close> of an error.
\<close>

datatype behavior = Coward | Aggressive

datatype season = Normal | Mating

datatype error =
    AssertionError
  | ValueError
  | IndexError
  | AttributeError
  | RemoveAbsent

type_synonym addr = nat

text \<open>
  The fields of \<^verbatim>\<open>Bear\<close>. The attributes \<^verbatim>\<open>cubs\<close> and
  \<^verbatim>\<open>parental_care_countdown\<close> are only assigned in \<^verbatim>\<open>give_birth\<close>; \<open>None\<close> stands
  for an attribute that has not been assigned yet.
\<close>

record bear =
  unique_id :: int
  energy :: real
  behavior :: behavior
  is_under_parental_care :: bool
  does_care_after_cubs :: bool
  mother :: "addr option"
  level :: int
  accumulated_xp :: real
  lower_cub_limit :: int
  upper_cub_limit :: int
  lower_parental_care_limit :: int
  upper_parental_care_limit :: int
  is_female :: bool
  cubs :: "addr list option"
  parental_care_countdown :: "int option"

text \<open>
  The sources of randomness (\<^verbatim>\<open>random\<close>, \<^verbatim>\<open>np.random\<close> and the model's
  \<^verbatim>\<open>random_generator\<close>) are infinite tapes of outcomes, one tape per kind of draw; a call
  reads the head of its tape and advances it.
\<close>

record random_source =
  uniform_draws :: "real stream"
  exponential_draws :: "real stream"
  index_draws :: "nat stream"
  poisson_draws :: "nat stream"

text \<open>
  The fields of \<^verbatim>\<open>BearSheepPredation\<close> that the agents read, the scheduler's registry of
  live agents (a sheep has no state besides its identifier and is represented by it), the
  object store and the random tapes.
\<close>

record model =
  sheep_reproduce :: real
  bear_reproduce :: real
  sheep_limit :: int
  hunt_success_chance :: real
  season :: season
  xp_for_sheep :: real
  xp_for_bear :: real
  encounter_rate :: real
  model_unique_id :: int
  sheep_agents :: "int list"
  bear_agents :: "addr list"
  heap :: "addr \<Rightarrow> bear"
  heap_size :: nat
  rand :: random_source

section \<open>Results with errors, and iteration\<close>

definition and_then :: "error + 'a \<Rightarrow> ('a \<Rightarrow> error + 'b) \<Rightarrow> error + 'b" where
  "and_then r f = (case r of Inl e \<Rightarrow> Inl e | Inr x \<Rightarrow> f x)"

fun for_each :: "'a list \<Rightarrow> ('a \<Rightarrow> model \<Rightarrow> error + model) \<Rightarrow> model \<Rightarrow> error + model" where
  "for_each [] f m = Inr m"
| "for_each (x # xs) f m = and_then (f x m) (for_each xs f)"

section \<open>Store access\<close>

definition bear_at :: "model \<Rightarrow> addr \<Rightarrow> bear" where
  "bear_at m a = heap m a"

definition modify_bear :: "addr \<Rightarrow> (bear \<Rightarrow> bear) \<Rightarrow> model \<Rightarrow> model" where
  "modify_bear a f m = m\<lparr>heap := (heap m)(a := f (heap m a))\<rparr>"

definition allocate_bear :: "bear \<Rightarrow> model \<Rightarrow> addr \<times> model" where
  "allocate_bear b m =
     (heap_size m, m\<lparr>heap := (heap m)(heap_size m := b), heap_size := Suc (heap_size m)\<rparr>)"

section \<open>Random draws\<close>

text \<open>\<^verbatim>\<open>random.random()\<close>\<close>

definition random_random :: "model \<Rightarrow> real \<times> model" where
  "random_random m =
     (shd (uniform_draws (rand m)),
      m\<lparr>rand := (rand m)\<lparr>uniform_draws := stl (uniform_draws (rand m))\<rparr>\<rparr>)"

text \<open>
  \<^verbatim>\<open>Generator.exponential(scale)\<close>: a standard exponential variate multiplied by the scale;
  a negative scale raises \<^verbatim>\<open>ValueError\<close>.
\<close>

definition exponential :: "real \<Rightarrow> model \<Rightarrow> error + (real \<times> model)" where
  "exponential scale m =
     (if scale < 0 then Inl ValueError
      else Inr (scale * shd (exponential_draws (rand m)),
                m\<lparr>rand := (rand m)\<lparr>exponential_draws := stl (exponential_draws (rand m))\<rparr>\<rparr>))"

text \<open>
  \<^verbatim>\<open>Generator.integers(low, high)\<close>: an integer of the half-open interval from \<open>low\<close> to
  \<open>high\<close>; an empty interval raises \<^verbatim>\<open>ValueError\<close>.
\<close>

definition integers :: "int \<Rightarrow> int \<Rightarrow> model \<Rightarrow> error + (int \<times> model)" where
  "integers low high m =
     (if high \<le> low then Inl ValueError
      else Inr (low + int (shd (index_draws (rand m)) mod nat (high - low)),
                m\<lparr>rand := (rand m)\<lparr>index_draws := stl (index_draws (rand m))\<rparr>\<rparr>))"

text \<open>\<^verbatim>\<open>random.choice(seq)\<close>: an element of the sequence; an empty one raises \<^verbatim>\<open>IndexError\<close>.\<close>

definition random_choice :: "'a list \<Rightarrow> model \<Rightarrow> error + ('a \<times> model)" where
  "random_choice xs m =
     (if xs = [] then Inl IndexError
      else Inr (xs ! (shd (index_draws (rand m)) mod length xs),
                m\<lparr>rand := (rand m)\<lparr>index_draws := stl (index_draws (rand m))\<rparr>\<rparr>))"

text \<open>\<^verbatim>\<open>np.random.poisson(lam)\<close>: a natural number; a negative rate raises \<^verbatim>\<open>ValueError\<close>.\<close>

definition poisson :: "real \<Rightarrow> model \<Rightarrow> error + (nat \<times> model)" where
  "poisson lam m =
     (if lam < 0 then Inl ValueError
      else Inr (shd (poisson_draws (rand m)),
                m\<lparr>rand := (rand m)\<lparr>poisson_draws := stl (poisson_draws (rand m))\<rparr>\<rparr>))"

section \<open>The scheduler\<close>

text \<open>
  The class \<^verbatim>\<open>RandomActivationByBreed\<close> of \<^verbatim>\<open>schedule.py\<close> is not among the sources.
  Its operations follow the spec's section on the activation scheduler. The registry of each
  species is kept in registration order.
\<close>

text \<open>
  Modelled from the spec: \<^verbatim>\<open>schedule.add\<close> (absent from the sources) for a sheep:
  it registers the agent under its species.
\<close>

definition schedule_add_sheep :: "int \<Rightarrow> model \<Rightarrow> model" where
  "schedule_add_sheep sh m = m\<lparr>sheep_agents := sheep_agents m @ [sh]\<rparr>"

text \<open>
  Modelled from the spec: \<^verbatim>\<open>schedule.add\<close> (absent from the sources) for a bear:
  it registers the agent under its species.
\<close>

definition schedule_add_bear :: "addr \<Rightarrow> model \<Rightarrow> model" where
  "schedule_add_bear a m = m\<lparr>bear_agents := bear_agents m @ [a]\<rparr>"

text \<open>
  Modelled from the spec: \<^verbatim>\<open>schedule.remove\<close> (absent from the sources) for a sheep:
  it deregisters the agent, which is absent from the live agents afterwards; removing an
  agent that is not registered is a precondition violation.
\<close>

definition schedule_remove_sheep :: "int \<Rightarrow> model \<Rightarrow> error + model" where
  "schedule_remove_sheep sh m =
     (if sh \<in> set (sheep_agents m) then Inr (m\<lparr>sheep_agents := removeAll sh (sheep_agents m)\<rparr>)
      else Inl RemoveAbsent)"

text \<open>
  Modelled from the spec: \<^verbatim>\<open>schedule.remove\<close> (absent from the sources) for a bear:
  it deregisters the agent, which is absent from the live agents afterwards; removing an
  agent that is not registered is a precondition violation.
\<close>

definition schedule_remove_bear :: "addr \<Rightarrow> model \<Rightarrow> error + model" where
  "schedule_remove_bear a m =
     (if a \<in> set (bear_agents m) then Inr (m\<lparr>bear_agents := removeAll a (bear_agents m)\<rparr>)
      else Inl RemoveAbsent)"

text \<open>
  Modelled from the spec: \<^verbatim>\<open>schedule.get_agents_by_breed(Sheep)\<close> (absent from the
  sources): the live sheep at call time.
\<close>

definition get_sheep :: "model \<Rightarrow> int list" where
  "get_sheep m = sheep_agents m"

text \<open>
  Modelled from the spec: \<^verbatim>\<open>schedule.get_agents_by_breed(Bear)\<close> (absent from the
  sources): the live bears at call time.
\<close>

definition get_bears :: "model \<Rightarrow> addr list" where
  "get_bears m = bear_agents m"

section \<open>The model\<close>

text \<open>\<^verbatim>\<open>BearSheepPredation.generate_id\<close>\<close>

definition generate_id :: "model \<Rightarrow> int \<times> model" where
  "generate_id m = (model_unique_id m + 1, m\<lparr>model_unique_id := model_unique_id m + 1\<rparr>)"

text \<open>
  \<^verbatim>\<open>BearSheepPredation.initial_values\<close>, the table that the constructor of the model
  fills with constants: the lower and upper litter size and the lower and upper duration of
  parental care of each behaviour.
\<close>

record limits =
  lower_cub :: int
  upper_cub :: int
  lower_parental_care :: int
  upper_parental_care :: int

fun initial_values :: "behavior \<Rightarrow> limits" where
  "initial_values Coward =
     \<lparr>lower_cub = 1, upper_cub = 4, lower_parental_care = 8, upper_parental_care = 16\<rparr>"
| "initial_values Aggressive =
     \<lparr>lower_cub = 1, upper_cub = 6, lower_parental_care = 1, upper_parental_care = 8\<rparr>"

section \<open>Bonding\<close>

text \<open>\<^verbatim>\<open>bond_with_cub\<close> and \<^verbatim>\<open>chase_cub_away\<close>\<close>

definition bond_with_cub :: "addr \<Rightarrow> addr \<Rightarrow> model \<Rightarrow> error + model" where
  "bond_with_cub mother_a cub m =
     (if \<not> is_female (bear_at m mother_a) then Inl AssertionError
      else Inr (modify_bear cub (\<lambda>b. b\<lparr>is_under_parental_care := True\<rparr>)
                 (modify_bear mother_a (\<lambda>b. b\<lparr>does_care_after_cubs := True\<rparr>) m)))"

definition chase_cub_away :: "addr \<Rightarrow> addr \<Rightarrow> model \<Rightarrow> error + model" where
  "chase_cub_away mother_a cub m =
     (if \<not> is_female (bear_at m mother_a) then Inl AssertionError
      else Inr (modify_bear cub (\<lambda>b. b\<lparr>is_under_parental_care := False\<rparr>)
                 (modify_bear mother_a (\<lambda>b. b\<lparr>does_care_after_cubs := False\<rparr>) m)))"

section \<open>Levels\<close>

text \<open>
  \<^verbatim>\<open>Bear.update\<close>: the loop \<^verbatim>\<open>while self.accumulated_xp > np.exp(self.level + 1)\<close> as a
  recursion on the level.
\<close>

function update_level :: "real \<Rightarrow> int \<Rightarrow> int" where
  "update_level xp lvl =
     (if xp > exp (real_of_int (lvl + 1)) then update_level xp (lvl + 1) else lvl)"
  by pat_completeness auto
termination
proof (relation "measure (\<lambda>(xp, lvl). nat (\<lceil>xp\<rceil> - lvl))")
  show "wf (measure (\<lambda>(xp, lvl). nat (\<lceil>xp\<rceil> - lvl)))"
    by simp
next
  fix xp :: real and lvl :: int
  assume gt: "exp (real_of_int (lvl + 1)) < xp"
  have "1 + real_of_int (lvl + 1) \<le> exp (real_of_int (lvl + 1))"
    by (rule exp_ge_add_one_self)
  with gt have "real_of_int (lvl + 2) < xp"
    by simp
  then have "lvl + 2 < \<lceil>xp\<rceil>"
    by (simp add: less_ceiling_iff)
  then show "((xp, lvl + 1), (xp, lvl)) \<in> measure (\<lambda>(xp, lvl). nat (\<lceil>xp\<rceil> - lvl))"
    by simp
qed

declare update_level.simps [simp del]

definition update :: "addr \<Rightarrow> model \<Rightarrow> model" where
  "update self m =
     modify_bear self (\<lambda>b. b\<lparr>level := update_level (accumulated_xp b) (level b)\<rparr>) m"

section \<open>Agents\<close>

subsection \<open>Sheep\<close>

text \<open>
  \<^verbatim>\<open>Sheep.step\<close> and \<^verbatim>\<open>Sheep.die\<close>. The new lamb is \<^verbatim>\<open>Sheep(self.model.generate_id(),
  self.model)\<close>.
\<close>

definition sheep_step :: "int \<Rightarrow> model \<Rightarrow> model" where
  "sheep_step self m =
     (let (u, m1) = random_random m in
      if u < sheep_reproduce m1 then
        (let sheep = get_sheep m1 in
         if int (length sheep) < sheep_limit m1 then
           (let (lamb, m2) = generate_id m1 in schedule_add_sheep lamb m2)
         else m1)
      else m1)"

definition sheep_die :: "int \<Rightarrow> model \<Rightarrow> error + model" where
  "sheep_die self m = schedule_remove_sheep self m"

subsection \<open>Creation of a bear\<close>

text \<open>
  \<^verbatim>\<open>Bear.__init__\<close>. The limits of a bear with both parents are the floor averages of the
  parents' limits; a bear without parents takes them from \<open>initial_values\<close>, the upper ones
  increased by one. The sex is decided by a uniform draw.
\<close>

definition inherited_limits :: "model \<Rightarrow> behavior \<Rightarrow> addr option \<Rightarrow> addr option \<Rightarrow> limits" where
  "inherited_limits m bh father_a mother_a =
     (case (father_a, mother_a) of
        (Some f, Some mo) \<Rightarrow>
          \<lparr>lower_cub = (lower_cub_limit (bear_at m f) + lower_cub_limit (bear_at m mo)) div 2,
           upper_cub = (upper_cub_limit (bear_at m f) + upper_cub_limit (bear_at m mo)) div 2,
           lower_parental_care =
             (lower_parental_care_limit (bear_at m f)
                + lower_parental_care_limit (bear_at m mo)) div 2,
           upper_parental_care =
             (upper_parental_care_limit (bear_at m f)
                + upper_parental_care_limit (bear_at m mo)) div 2\<rparr>
      | _ \<Rightarrow>
          \<lparr>lower_cub = lower_cub (initial_values bh),
           upper_cub = upper_cub (initial_values bh) + 1,
           lower_parental_care = lower_parental_care (initial_values bh),
           upper_parental_care = upper_parental_care (initial_values bh) + 1\<rparr>)"

definition Bear_init ::
  "int \<Rightarrow> real \<Rightarrow> behavior \<Rightarrow> addr option \<Rightarrow> addr option \<Rightarrow> model \<Rightarrow> addr \<times> model" where
  "Bear_init uid e bh father_a mother_a m =
     (let lim = inherited_limits m bh father_a mother_a;
          (u, m1) = random_random m
      in allocate_bear
           \<lparr>unique_id = uid, energy = e, behavior = bh,
            is_under_parental_care = False, does_care_after_cubs = False,
            mother = mother_a, level = 1, accumulated_xp = 0,
            lower_cub_limit = lower_cub lim, upper_cub_limit = upper_cub lim,
            lower_parental_care_limit = lower_parental_care lim,
            upper_parental_care_limit = upper_parental_care lim,
            is_female = (u < 0.5), cubs = None, parental_care_countdown = None\<rparr>
           m1)"

subsection \<open>Death of a bear\<close>

text \<open>\<^verbatim>\<open>Bear.die\<close>\<close>

definition bear_die :: "addr \<Rightarrow> model \<Rightarrow> error + model" where
  "bear_die self m =
     and_then
       (if does_care_after_cubs (bear_at m self) then
          (case cubs (bear_at m self) of
             None \<Rightarrow> Inl AttributeError
           | Some cs \<Rightarrow> for_each cs (chase_cub_away self) m)
        else Inr m)
       (schedule_remove_bear self)"

subsection \<open>Combat\<close>

text \<open>
  \<^verbatim>\<open>Bear.attack\<close>. The two local variables \<^verbatim>\<open>this_bear_attack_strength\<close> and
  \<^verbatim>\<open>other_bear_attack_strength\<close> are the pair \<open>attack_strengths\<close>, in this order. The
  condition draws with \<^verbatim>\<open>other_bear_attack_strength\<close> first and with
  \<^verbatim>\<open>this_bear_attack_strength\<close> second.
\<close>

definition attack_strengths :: "bear \<Rightarrow> bear \<Rightarrow> int \<times> int" where
  "attack_strengths self other = (level self, level self)"

definition gain_xp :: "real \<Rightarrow> bear \<Rightarrow> bear" where
  "gain_xp x b = b\<lparr>accumulated_xp := accumulated_xp b + x\<rparr>"

definition attack :: "addr \<Rightarrow> addr \<Rightarrow> model \<Rightarrow> error + model" where
  "attack self other m =
     (let (this_bear_attack_strength, other_bear_attack_strength) =
            attack_strengths (bear_at m self) (bear_at m other)
      in and_then (exponential (real_of_int other_bear_attack_strength) m) (\<lambda>(first_draw, m1).
         and_then (exponential (real_of_int this_bear_attack_strength) m1) (\<lambda>(second_draw, m2).
         if first_draw < second_draw then
           and_then
             (bear_die self
                (modify_bear other
                   (gain_xp (xp_for_bear m2 + accumulated_xp (bear_at m2 self) / 2)) m2))
             (\<lambda>m3. Inr (update other m3))
         else
           and_then
             (bear_die other
                (modify_bear self
                   (gain_xp (xp_for_bear m2 + accumulated_xp (bear_at m2 other) / 2)) m2))
             (\<lambda>m3. Inr (update self m3)))))"

subsection \<open>Hunting\<close>

text \<open>
  \<^verbatim>\<open>Bear.hunt\<close>. \<open>hunt_level\<close> is the local variable \<^verbatim>\<open>level\<close> before the chance is
  computed; the assistant is \<open>None\<close> when the call passes none.
\<close>

definition hunt_level :: "bear \<Rightarrow> bear option \<Rightarrow> int" where
  "hunt_level self assistant =
     (case assistant of
        None \<Rightarrow> level self
      | Some a \<Rightarrow> level self + level a div 2)"

definition hunt :: "addr \<Rightarrow> int \<Rightarrow> addr option \<Rightarrow> model \<Rightarrow> error + model" where
  "hunt self sheep assistant m =
     (let lvl = hunt_level (bear_at m self) (map_option (bear_at m) assistant);
          chance_to_hunt = hunt_success_chance m * real_of_int lvl;
          (u, m1) = random_random m
      in and_then
           (if u < chance_to_hunt then
              sheep_die sheep (modify_bear self (gain_xp (xp_for_sheep m1)) m1)
            else Inr m1)
           (\<lambda>m2. Inr (update self m2)))"

subsection \<open>Mating and birth\<close>

text \<open>
  \<^verbatim>\<open>attempt_to_mate\<close>. All bears of a store belong to the one model that holds the store,
  so the assertion \<^verbatim>\<open>male.model == female.model\<close> holds and has no branch.
\<close>

definition chance_to_reproduce :: "model \<Rightarrow> bear \<Rightarrow> bear \<Rightarrow> real" where
  "chance_to_reproduce m male female =
     (let chance = bear_reproduce m * real_of_int (level male)
      in if behavior male \<noteq> behavior female then chance / 2 else chance)"

definition attempt_to_mate :: "addr \<Rightarrow> addr \<Rightarrow> model \<Rightarrow> bool \<times> model" where
  "attempt_to_mate male female m =
     (if does_care_after_cubs (bear_at m female) then (False, m)
      else (let (u, m1) = random_random m
            in (u < chance_to_reproduce m (bear_at m male) (bear_at m female), m1)))"

text \<open>
  \<^verbatim>\<open>Bear.give_birth\<close>. \<open>make_cubs\<close> is the list comprehension that creates the cubs: each
  round takes a new identifier, divides the mother's energy by the litter size, chooses the
  behaviour of one of the parents and creates the cub.
\<close>

fun make_cubs :: "nat \<Rightarrow> int \<Rightarrow> addr \<Rightarrow> addr \<Rightarrow> model \<Rightarrow> error + (addr list \<times> model)" where
  "make_cubs 0 cub_cnt self father m = Inr ([], m)"
| "make_cubs (Suc n) cub_cnt self father m =
     (let (uid, m1) = generate_id m;
          e = energy (bear_at m1 self) / real_of_int cub_cnt
      in and_then
           (random_choice [behavior (bear_at m1 father), behavior (bear_at m1 self)] m1)
           (\<lambda>(bh, m2).
              let (cub, m3) = Bear_init uid e bh (Some father) (Some self) m2
              in and_then (make_cubs n cub_cnt self father m3)
                   (\<lambda>(rest, m4). Inr (cub # rest, m4))))"

definition give_birth :: "addr \<Rightarrow> addr \<Rightarrow> model \<Rightarrow> error + model" where
  "give_birth self father m =
     and_then
       (integers (lower_cub_limit (bear_at m self)) (upper_cub_limit (bear_at m self)) m)
       (\<lambda>(cub_cnt, m1).
          let m2 = modify_bear self (\<lambda>b. b\<lparr>energy := energy b / 2\<rparr>) m1
          in and_then (make_cubs (nat cub_cnt) cub_cnt self father m2)
               (\<lambda>(cs, m3).
                  let m4 = modify_bear self (\<lambda>b. b\<lparr>cubs := Some cs\<rparr>) m3
                  in and_then
                       (integers (lower_parental_care_limit (bear_at m4 self))
                          (upper_parental_care_limit (bear_at m4 self)) m4)
                       (\<lambda>(countdown, m5).
                          let m6 = modify_bear self
                                     (\<lambda>b. b\<lparr>parental_care_countdown := Some countdown\<rparr>) m5
                          in for_each cs
                               (\<lambda>cub mm. bond_with_cub self cub (schedule_add_bear cub mm))
                               m6)))"

subsection \<open>Encounters\<close>

text \<open>
  \<^verbatim>\<open>Bear.generate_encounters\<close>. \<open>encounter\<close> is the body of the loop, \<open>encounters\<close> the
  loop over \<^verbatim>\<open>range(encounter_cnt)\<close>.
\<close>

definition encounter :: "addr \<Rightarrow> model \<Rightarrow> error + model" where
  "encounter self m =
     (let bears = get_bears m;
          filtered_bears =
            filter (\<lambda>bear. bear \<noteq> self \<and> is_under_parental_care (bear_at m bear) = False) bears
      in if length filtered_bears > 0 then
           and_then (random_choice filtered_bears m) (\<lambda>(other_bear, m1).
             if season m1 = Mating
                \<and> is_female (bear_at m1 other_bear) \<noteq> is_female (bear_at m1 self) then
               (let (did_make_cubs, m2) =
                      (if is_female (bear_at m1 self) then attempt_to_mate other_bear self m1
                       else attempt_to_mate self other_bear m1)
                in if did_make_cubs then
                     (if is_female (bear_at m2 self) then give_birth self other_bear m2
                      else give_birth other_bear self m2)
                   else Inr m2)
             else if behavior (bear_at m1 self) = Aggressive then attack self other_bear m1
             else Inr m1)
         else Inr m)"

fun encounters :: "nat \<Rightarrow> addr \<Rightarrow> model \<Rightarrow> error + model" where
  "encounters 0 self m = Inr m"
| "encounters (Suc n) self m = and_then (encounter self m) (encounters n self)"

definition generate_encounters :: "addr \<Rightarrow> model \<Rightarrow> error + model" where
  "generate_encounters self m =
     (if is_under_parental_care (bear_at m self) \<noteq> False then Inl AssertionError
      else if behavior (bear_at m self) = Coward \<and> season m \<noteq> Mating then Inr m
      else and_then (poisson (encounter_rate m) m)
             (\<lambda>(encounter_cnt, m1). encounters encounter_cnt self m1))"

subsection \<open>The step of a bear\<close>

text \<open>
  \<^verbatim>\<open>Bear.step\<close>, in the order of the source: the energy, the hunt (\<open>step_hunt\<close>), the
  parental care (\<open>step_care\<close>), the encounters, the death of hunger.
\<close>

definition step_hunt :: "addr \<Rightarrow> model \<Rightarrow> error + model" where
  "step_hunt self m =
     (let sheep = get_sheep m
      in if length sheep > 0 then
           and_then (random_choice sheep m) (\<lambda>(sheep_to_eat, m1).
             if is_under_parental_care (bear_at m1 self) then
               hunt self sheep_to_eat (mother (bear_at m1 self)) m1
             else hunt self sheep_to_eat None m1)
         else Inr m)"

definition step_care :: "addr \<Rightarrow> model \<Rightarrow> error + model" where
  "step_care self m =
     (if does_care_after_cubs (bear_at m self) then
        (case parental_care_countdown (bear_at m self) of
           None \<Rightarrow> Inl AttributeError
         | Some countdown \<Rightarrow>
             if countdown \<le> 0 then
               (case cubs (bear_at m self) of
                  None \<Rightarrow> Inl AttributeError
                | Some cs \<Rightarrow> for_each cs (chase_cub_away self) m)
             else Inr (modify_bear self
                         (\<lambda>b. b\<lparr>parental_care_countdown := Some (countdown - 1)\<rparr>) m))
      else Inr m)"

definition bear_step :: "addr \<Rightarrow> model \<Rightarrow> error + model" where
  "bear_step self m =
     and_then (step_hunt self (modify_bear self (\<lambda>b. b\<lparr>energy := energy b - 1\<rparr>) m)) (\<lambda>m1.
     and_then (step_care self m1) (\<lambda>m2.
     and_then
       (if \<not> is_under_parental_care (bear_at m2 self) then generate_encounters self m2
        else Inr m2) (\<lambda>m3.
     if energy (bear_at m3 self) < 0 then bear_die self m3 else Inr m3)))"

section \<open>Sequences of operations and example populations\<close>

text \<open>The operations on bears that change experience or levels, to be run in sequence.\<close>

datatype bear_op = Update addr | Hunt addr int "addr option" | Attack addr addr

fun apply_op :: "bear_op \<Rightarrow> model \<Rightarrow> error + model" where
  "apply_op (Update self) m = Inr (update self m)"
| "apply_op (Hunt self sheep assistant) m = hunt self sheep assistant m"
| "apply_op (Attack self other) m = attack self other m"

text \<open>The random source after the two exponential draws of a combat.\<close>

definition after_draws :: "model \<Rightarrow> model" where
  "after_draws m =
     m\<lparr>rand := (rand m)\<lparr>exponential_draws := stl (stl (exponential_draws (rand m)))\<rparr>\<rparr>"

text \<open>
  Two stores are related by \<open>flags_only\<close> when they differ at most in the two flags of
  parental care of their bears.
\<close>

definition flags_only :: "model \<Rightarrow> model \<Rightarrow> bool" where
  "flags_only m m' \<longleftrightarrow>
     m'\<lparr>heap := heap m\<rparr> = m \<and>
     (\<forall>a. heap m' a =
        (heap m a)\<lparr>is_under_parental_care := is_under_parental_care (heap m' a),
                   does_care_after_cubs := does_care_after_cubs (heap m' a)\<rparr>)"

text \<open>
  A bear as the constructor of the model creates it (no parents), with a given sex, and a
  model with the default parameters of the constructor and no agents.
\<close>

definition founder :: "int \<Rightarrow> real \<Rightarrow> behavior \<Rightarrow> bool \<Rightarrow> bear" where
  "founder uid e bh fem =
     \<lparr>unique_id = uid, energy = e, behavior = bh,
      is_under_parental_care = False, does_care_after_cubs = False,
      mother = None, level = 1, accumulated_xp = 0,
      lower_cub_limit = lower_cub (initial_values bh),
      upper_cub_limit = upper_cub (initial_values bh) + 1,
      lower_parental_care_limit = lower_parental_care (initial_values bh),
      upper_parental_care_limit = upper_parental_care (initial_values bh) + 1,
      is_female = fem, cubs = None, parental_care_countdown = None\<rparr>"

definition empty_model :: model where
  "empty_model =
     \<lparr>sheep_reproduce = 0.08, bear_reproduce = 0.05, sheep_limit = 2000,
      hunt_success_chance = 0.06, season = Normal, xp_for_sheep = 100, xp_for_bear = 500,
      encounter_rate = 1, model_unique_id = 1, sheep_agents = [], bear_agents = [],
      heap = (\<lambda>a. founder 0 0 Coward False), heap_size = 0,
      rand = \<lparr>uniform_draws = sconst 0, exponential_draws = sconst 1,
              index_draws = sconst 0, poisson_draws = sconst 0\<rparr>\<rparr>"

text \<open>
  Three male bears outside the mating season and no sheep: an aggressive one without energy
  at address 0 and two cowards. The tapes make the bear at 0 meet two bears and lose the
  first combat.
\<close>

definition arena :: model where
  "arena = empty_model
     \<lparr>model_unique_id := 4, bear_agents := [0, 1, 2],
      heap := (\<lambda>a. if a = 0 then founder 1 0 Aggressive False
                    else if a = 1 then founder 2 10 Coward False
                    else founder 3 10 Coward False),
      heap_size := 3,
      rand := \<lparr>uniform_draws = sconst 0,
               exponential_draws = 1 ## 2 ## 2 ## 1 ## sconst 1,
               index_draws = 0 ## 1 ## sconst 0,
               poisson_draws = 2 ## sconst 0\<rparr>\<rparr>"

text \<open>
  An aggressive bear of level 1 at address 0 and a coward at address 1 that has reached
  level 4 with the reward of one sheep; the two standard exponential variates of the next
  combat are 2 and 5.
\<close>

definition duel :: model where
  "duel = empty_model
     \<lparr>model_unique_id := 3, bear_agents := [0, 1],
      heap := (\<lambda>a. if a = 0 then founder 1 10 Aggressive False
                    else (founder 2 10 Coward False)\<lparr>level := 4, accumulated_xp := 100\<rparr>),
      heap_size := 2,
      rand := \<lparr>uniform_draws = sconst 0, exponential_draws = 2 ## 5 ## sconst 1,
               index_draws = sconst 0, poisson_draws = sconst 1\<rparr>\<rparr>"

text \<open>
  A mother at address 0 whose countdown of parental care has reached 0, her cub at address
  1, and one sheep. Both bears have reached level 4 with the reward of one sheep; every
  uniform draw is 0.3.
\<close>

definition den :: model where
  "den = empty_model
     \<lparr>model_unique_id := 9, sheep_agents := [7], bear_agents := [0, 1],
      heap := (\<lambda>a. if a = 0
                    then (founder 1 10 Coward True)
                           \<lparr>level := 4, accumulated_xp := 100, does_care_after_cubs := True,
                            cubs := Some [1], parental_care_countdown := Some 0\<rparr>
                    else (founder 8 5 Coward False)
                           \<lparr>level := 4, accumulated_xp := 100, is_under_parental_care := True,
                            mother := Some 0\<rparr>),
      heap_size := 2,
      rand := \<lparr>uniform_draws = sconst (3 / 10), exponential_draws = sconst 1,
               index_draws = sconst 0, poisson_draws = sconst 0\<rparr>\<rparr>"

text \<open>The store \<open>den\<close> after the mother has released her cub.\<close>

definition den_released :: model where
  "den_released = den
     \<lparr>heap := (heap den)
        (0 := (heap den 0)\<lparr>does_care_after_cubs := False\<rparr>,
         1 := (heap den 1)\<lparr>is_under_parental_care := False\<rparr>)\<rparr>"

text \<open>
  What the list comprehension of \<open>give_birth\<close> makes of a new cub, in terms of the store at
  the time of the comprehension.
\<close>

definition cub_of :: "model \<Rightarrow> addr \<Rightarrow> addr \<Rightarrow> int \<Rightarrow> bear \<Rightarrow> bool" where
  "cub_of m self father cub_cnt b \<longleftrightarrow>
     energy b = energy (heap m self) / real_of_int cub_cnt
     \<and> mother b = Some self
     \<and> \<not> is_under_parental_care b \<and> \<not> does_care_after_cubs b
     \<and> level b = 1 \<and> accumulated_xp b = 0
     \<and> lower_cub_limit b
         = (lower_cub_limit (heap m father) + lower_cub_limit (heap m self)) div 2
     \<and> upper_cub_limit b
         = (upper_cub_limit (heap m father) + upper_cub_limit (heap m self)) div 2"


text \<open>
  A male of level 1 at address 0 and a female of level 1 and energy 10 at address 1; the
  next draw of an integer yields the third value of its interval.
\<close>

definition couple :: model where
  "couple = empty_model
     \<lparr>model_unique_id := 3, season := Mating, bear_agents := [0, 1],
      heap := (\<lambda>a. if a = 0 then founder 1 10 Aggressive False
                    else founder 2 10 Coward True),
      heap_size := 2,
      rand := \<lparr>uniform_draws = sconst 0, exponential_draws = sconst 1,
               index_draws = 2 ## sconst 0, poisson_draws = sconst 1\<rparr>\<rparr>"

text \<open>
  The stores that a run of the simulation can reach. The constructor of the model starts
  without agents, registers sheep and bears without parents, and sets the identifier
  counter; a tick sets the season and lets agents step. The scheduler is not among the
  sources, so any order of activation is admitted: any bear of the store may step, and a
  step that raises ends the run.
\<close>

inductive reachable :: "model \<Rightarrow> bool" where
  start: "heap_size m = 0 \<Longrightarrow> bear_agents m = [] \<Longrightarrow> reachable m"
| founder_added:
    "reachable m \<Longrightarrow> Bear_init uid e bh None None m = (a, m') \<Longrightarrow>
     reachable (schedule_add_bear a m')"
| sheep_added: "reachable m \<Longrightarrow> reachable (schedule_add_sheep sh m)"
| identifier_set: "reachable m \<Longrightarrow> reachable (m\<lparr>model_unique_id := uid\<rparr>)"
| season_set: "reachable m \<Longrightarrow> reachable (m\<lparr>season := s\<rparr>)"
| sheep_stepped: "reachable m \<Longrightarrow> reachable (sheep_step self m)"
| bear_stepped:
    "reachable m \<Longrightarrow> self < heap_size m \<Longrightarrow> bear_step self m = Inr m' \<Longrightarrow> reachable m'"

text \<open>
  The limits of the litter size that \<open>give_birth\<close> needs, for one bear and for all bears of
  a store whose registered bears are in the store; and the relation between two stores
  with the same bears, the same limits and no new registered bear.
\<close>

definition good_limits :: "bear \<Rightarrow> bool" where
  "good_limits b \<longleftrightarrow> 1 \<le> lower_cub_limit b \<and> lower_cub_limit b < upper_cub_limit b"

definition limits_ok :: "model \<Rightarrow> bool" where
  "limits_ok m \<longleftrightarrow>
     (\<forall>a\<in>set (bear_agents m). a < heap_size m) \<and> (\<forall>a<heap_size m. good_limits (heap m a))"

definition same_limits :: "model \<Rightarrow> model \<Rightarrow> bool" where
  "same_limits m m' \<longleftrightarrow>
     heap_size m' = heap_size m \<and> set (bear_agents m') \<subseteq> set (bear_agents m)
     \<and> (\<forall>a. lower_cub_limit (heap m' a) = lower_cub_limit (heap m a)
            \<and> upper_cub_limit (heap m' a) = upper_cub_limit (heap m a))"

text \<open>
  A store built by the constructor of the model in the mating season: an aggressive male at
  address 0 and a cowardly female at address 1. The draws make the female meet the male
  once, mate, and give birth to one cub.
\<close>

definition mating_pair :: model where
  "mating_pair =
     schedule_add_bear 1 (snd (Bear_init 2 10 Coward None None
       (schedule_add_bear 0 (snd (Bear_init 1 10 Aggressive None None
          (empty_model
             \<lparr>season := Mating,
              rand := \<lparr>uniform_draws = (7 / 10) ## (2 / 10) ## (1 / 100) ## sconst (7 / 10),
                       exponential_draws = sconst 1, index_draws = sconst 0,
                       poisson_draws = sconst 1\<rparr>\<rparr>))))))"

text \<open>
  The store \<open>duel\<close> after the bear at address 0 has attacked the bear at address 1: the
  attacker is no longer registered, the attacked bear holds the reward.
\<close>

definition duel_after :: model where
  "duel_after = duel
     \<lparr>bear_agents := [1],
      heap := (heap duel)(1 := (heap duel 1)\<lparr>level := 6, accumulated_xp := 600\<rparr>),
      rand := (rand duel)\<lparr>exponential_draws := sconst 1\<rparr>\<rparr>"

section \<open>Auxiliary facts\<close>

lemma and_then_Inr_iff:
  "and_then r f = Inr y \<longleftrightarrow> (\<exists>x. r = Inr x \<and> f x = Inr y)"
  by (cases r) (simp_all add: and_then_def)

lemma update_level_ge: "lvl \<le> update_level xp lvl"
proof (induction xp lvl rule: update_level.induct)
  case (1 xp lvl)
  show ?case
  proof (cases "exp (real_of_int (lvl + 1)) < xp")
    case True
    with "1" have "lvl + 1 \<le> update_level xp (lvl + 1)"
      by simp
    with True show ?thesis
      by (subst update_level.simps) simp
  next
    case False
    then show ?thesis
      by (subst update_level.simps) simp
  qed
qed

lemma flags_only_refl: "flags_only m m"
  by (simp add: flags_only_def)

lemma flags_only_trans: "flags_only m m' \<Longrightarrow> flags_only m' m'' \<Longrightarrow> flags_only m m''"
  unfolding flags_only_def
  apply (intro conjI allI)
   apply (metis model.update_convs(12) model.surjective)
  apply (erule conjE)+
  subgoal for a
    apply (drule_tac x=a in spec)+
    apply (cases "heap m a"; cases "heap m' a"; cases "heap m'' a")
    apply simp
    done
  done

lemma flags_only_level: "flags_only m m' \<Longrightarrow> level (heap m' a) = level (heap m a)"
  unfolding flags_only_def
  by (metis bear.select_convs(7) bear.surjective bear.update_convs(4) bear.update_convs(5))

lemma chase_cub_away_flags_only:
  "chase_cub_away mo cub m = Inr m' \<Longrightarrow> flags_only m m'"
  by (auto simp: chase_cub_away_def flags_only_def modify_bear_def bear_at_def split: if_splits)

lemma for_each_chase_flags_only:
  "for_each cs (chase_cub_away mo) m = Inr m' \<Longrightarrow> flags_only m m'"
proof (induction cs arbitrary: m)
  case Nil
  then show ?case by (simp add: flags_only_refl)
next
  case (Cons c cs)
  then obtain m1 where
    "chase_cub_away mo c m = Inr m1" "for_each cs (chase_cub_away mo) m1 = Inr m'"
    by (auto simp: and_then_Inr_iff)
  then show ?case
    using Cons.IH chase_cub_away_flags_only flags_only_trans by blast
qed

lemma bear_die_flags_only:
  "bear_die self m = Inr m' \<Longrightarrow> \<exists>m1. flags_only m m1 \<and> schedule_remove_bear self m1 = Inr m'"
  unfolding bear_die_def and_then_Inr_iff
  by (auto split: if_splits option.splits intro: flags_only_refl for_each_chase_flags_only)

lemma attack_unfold:
  "attack self other m =
     (if level (bear_at m self) < 0 then Inl ValueError
      else if real_of_int (level (bear_at m self)) * shd (exponential_draws (rand m))
              < real_of_int (level (bear_at m self)) * shd (stl (exponential_draws (rand m)))
      then and_then
             (bear_die self
                (modify_bear other
                   (gain_xp (xp_for_bear m + accumulated_xp (bear_at m self) / 2))
                   (after_draws m)))
             (\<lambda>m3. Inr (update other m3))
      else and_then
             (bear_die other
                (modify_bear self
                   (gain_xp (xp_for_bear m + accumulated_xp (bear_at m other) / 2))
                   (after_draws m)))
             (\<lambda>m3. Inr (update self m3)))"
  by (simp add: attack_def attack_strengths_def exponential_def and_then_def after_draws_def
      bear_at_def)

lemmas example_defs = founder_def empty_model_def

lemmas store_defs = bear_at_def modify_bear_def

lemmas draw_defs = random_random_def random_choice_def exponential_def poisson_def integers_def

lemmas schedule_defs = get_bears_def get_sheep_def schedule_remove_bear_def
  schedule_remove_sheep_def schedule_add_bear_def schedule_add_sheep_def

text \<open>
  Bounds on the exponential function that decide the levels of the examples: the reward of
  one sheep lifts a new bear to level 4, the reward of one bear on top of it to level 6.
\<close>

lemma exp_nat_lower: "(13 / 8) ^ n \<le> exp (real n / 2)"
proof -
  have "1 + (1/2) + (1/2)\<^sup>2 / 2 \<le> exp (1/2 :: real)"
    by (rule exp_lower_Taylor_quadratic) simp
  then have "13 / 8 \<le> exp (1/2 :: real)"
    by (simp add: power2_eq_square)
  then have "(13 / 8) ^ n \<le> exp (1/2 :: real) ^ n"
    by (intro power_mono) simp_all
  also have "\<dots> = exp (real n * (1/2))"
    by (rule exp_of_nat_mult [symmetric])
  finally show ?thesis by simp
qed

lemma exp_nat_upper: "exp (real n / 8) \<le> (73 / 64) ^ n"
proof -
  have "exp (1/8 :: real) \<le> 1 + (1/8) + (1/8)\<^sup>2"
    by (rule exp_bound) simp_all
  then have "exp (1/8 :: real) \<le> 73 / 64"
    by (simp add: power2_eq_square)
  then have "exp (1/8 :: real) ^ n \<le> (73 / 64) ^ n"
    by (intro power_mono) simp_all
  moreover have "exp (1/8 :: real) ^ n = exp (real n * (1/8))"
    by (rule exp_of_nat_mult [symmetric])
  ultimately show ?thesis by simp
qed

lemma exp_4_less: "exp (4::real) < 100"
proof -
  have "(73 / 64) ^ 32 < (100::real)"
    by (simp add: power_divide)
  with exp_nat_upper [of 32] show ?thesis by simp
qed

lemma exp_5_greater: "(100::real) < exp 5"
proof -
  have "(100::real) < (13 / 8) ^ 10"
    by (simp add: power_divide)
  with exp_nat_lower [of 10] show ?thesis by simp
qed

lemma exp_6_less: "exp (6::real) < 600"
proof -
  have "(73 / 64) ^ 48 < (600::real)"
    by (simp add: power_divide)
  with exp_nat_upper [of 48] show ?thesis by simp
qed

lemma exp_7_greater: "(600::real) < exp 7"
proof -
  have "(600::real) < (13 / 8) ^ 14"
    by (simp add: power_divide)
  with exp_nat_lower [of 14] show ?thesis by simp
qed

lemma exp_mono_less: "exp (a::real) < c \<Longrightarrow> b \<le> a \<Longrightarrow> exp b < c"
  by (meson exp_le_cancel_iff le_less_trans)

lemma level_after_one_sheep: "update_level 100 1 = 4"
proof -
  have "exp (2::real) < 100" "exp (3::real) < 100"
    using exp_mono_less [OF exp_4_less] by simp_all
  then show ?thesis
    using exp_4_less exp_5_greater
    by (simp add: update_level.simps [of 100 1] update_level.simps [of 100 2]
        update_level.simps [of 100 3] update_level.simps [of 100 4])
qed

lemma level_after_one_sheep_and_one_bear: "update_level 600 4 = 6"
proof -
  have "exp (5::real) < 600"
    using exp_mono_less [OF exp_6_less] by simp
  then show ?thesis
    using exp_6_less exp_7_greater
    by (simp add: update_level.simps [of 600 4] update_level.simps [of 600 5]
        update_level.simps [of 600 6])
qed

section \<open>Levels never decrease\<close>

lemma update_level_mono: "level (bear_at m a) \<le> level (bear_at (update self m) a)"
  by (simp add: update_def modify_bear_def bear_at_def update_level_ge)

lemma bear_die_level: "bear_die self m = Inr m' \<Longrightarrow> level (bear_at m' a) = level (bear_at m a)"
  by (auto dest!: bear_die_flags_only
      simp: bear_at_def schedule_remove_bear_def flags_only_level split: if_splits)

lemma hunt_level_mono:
  assumes "hunt self sheep assistant m = Inr m'"
  shows "level (bear_at m a) \<le> level (bear_at m' a)"
proof -
  from assms obtain m2 where
    m2: "m' = update self m2" "level (bear_at m2 a) = level (bear_at m a)"
    by (auto simp: hunt_def Let_def and_then_Inr_iff random_random_def sheep_die_def
        schedule_remove_sheep_def modify_bear_def gain_xp_def bear_at_def split: if_splits)
  then show ?thesis
    using update_level_mono [of m2 a self] by simp
qed

lemma gain_xp_level:
  "level (bear_at (modify_bear w (gain_xp x) (after_draws m)) a) = level (bear_at m a)"
  by (simp add: modify_bear_def gain_xp_def after_draws_def bear_at_def)

lemma attack_level_mono:
  assumes "attack self other m = Inr m'"
  shows "level (bear_at m a) \<le> level (bear_at m' a)"
proof -
  from assms obtain w v x m3 where
    "bear_die w (modify_bear v (gain_xp x) (after_draws m)) = Inr m3" and "m' = update v m3"
    unfolding attack_unfold by (auto simp: and_then_Inr_iff split: if_splits)
  then show ?thesis
    using update_level_mono [of m3 a v] bear_die_level [of w _ m3 a] gain_xp_level [of v x m a]
    by simp
qed

text \<open>
  Claim C6. Whatever sequence of hunts, combats and calls of \<open>update\<close> runs on a store, and
  whichever bears take part, the level of every bear afterwards is at least its level before:
  the only assignment to a level is the increment in the loop of \<open>update\<close>.
\<close>

theorem level_never_decreases:
  "for_each ops apply_op m = Inr m' \<Longrightarrow> level (bear_at m a) \<le> level (bear_at m' a)"
proof (induction ops arbitrary: m)
  case Nil
  then show ?case by simp
next
  case (Cons op ops)
  then obtain m1 where
    step: "apply_op op m = Inr m1" and rest: "for_each ops apply_op m1 = Inr m'"
    by (auto simp: and_then_Inr_iff)
  from step have "level (bear_at m a) \<le> level (bear_at m1 a)"
    by (cases op) (auto simp: update_level_mono hunt_level_mono attack_level_mono)
  with Cons.IH [OF rest] show ?case
    by simp
qed

theorem level_never_decreases_witness:
  "\<exists>m'. for_each [Attack 0 1, Update 1, Hunt 2 7 None] apply_op (arena\<lparr>sheep_agents := [7]\<rparr>)
           = Inr m'
       \<and> level (bear_at (arena\<lparr>sheep_agents := [7]\<rparr>) 1) \<le> level (bear_at m' 1)"
proof -
  obtain m' where run:
    "for_each [Attack 0 1, Update 1, Hunt 2 7 None] apply_op (arena\<lparr>sheep_agents := [7]\<rparr>)
       = Inr m'"
    by (simp add: attack_unfold hunt_def hunt_level_def sheep_die_def bear_die_def gain_xp_def
        update_def after_draws_def and_then_def arena_def example_defs store_defs draw_defs
        schedule_defs)
  from level_never_decreases [OF run, of 1] run show ?thesis
    by blast
qed

section \<open>Attack strengths in a combat\<close>

text \<open>
  Claim C2. In a combat each combatant's attack strength should be its own level. The code
  assigns the attacker's level to both strengths: when a bear of level 1 attacks a bear of
  level 4, both strengths are 1 and both exponential draws are scaled by 1. With the
  variates 2 and 5 the first draw is the smaller one and the attacker is removed; a strength
  of 4 for the attacked bear would have scaled the first draw to 8 and removed the attacked
  bear instead.
\<close>

theorem attack_other_strength_is_attackers_level:
  "attack_strengths (bear_at duel 0) (bear_at duel 1) = (1, 1)
   \<and> level (bear_at duel 1) = 4
   \<and> (case attack 0 1 duel of Inl e \<Rightarrow> False | Inr m' \<Rightarrow> bear_agents m' = [1])"
  by (simp add: attack_unfold attack_strengths_def bear_die_def gain_xp_def
      update_def after_draws_def and_then_def duel_def example_defs store_defs schedule_defs)

section \<open>The level of an assisted hunt\<close>

text \<open>
  Claim C4. The level of an assisted hunt should be the average of the levels of the hunter
  and of the assistant. The code adds half of the assistant's level to the hunter's level:
  a cub of level 4 helped by a mother of level 4 hunts with level 6, above both levels. With
  a uniform draw of 0.3 and the default chance of 0.06 per level the hunt succeeds, where
  the average level 4 would have failed.
\<close>

theorem assisted_hunt_level_is_not_average:
  "hunt_level (bear_at den 1) (Some (bear_at den 0)) = 6
   \<and> level (bear_at den 1) = 4 \<and> level (bear_at den 0) = 4
   \<and> (case step_hunt 1 den of Inl e \<Rightarrow> False | Inr m' \<Rightarrow> sheep_agents m' = [])"
  by (simp add: step_hunt_def hunt_def hunt_level_def sheep_die_def gain_xp_def
      update_def and_then_def den_def example_defs store_defs schedule_defs draw_defs)

section \<open>Mating attempts\<close>

text \<open>
  Claim C7. A mating attempt fails at once, without a draw and without any change, when the
  female cares for cubs. Otherwise it succeeds exactly when the uniform draw is below the
  chance, which is \<open>bear_reproduce\<close> times the level of the male, halved when the two
  behaviours differ. In both cases the attempt leaves every bear, the registry of agents and
  the parameters of the model as they are; at most the random tape advances.
\<close>

theorem attempt_to_mate_outcome:
  "(does_care_after_cubs (bear_at m female) \<longrightarrow>
      attempt_to_mate male female m = (False, m))
   \<and> (\<not> does_care_after_cubs (bear_at m female) \<longrightarrow>
        fst (attempt_to_mate male female m)
          = (shd (uniform_draws (rand m))
               < bear_reproduce m * real_of_int (level (bear_at m male))
                   / (if behavior (bear_at m male) \<noteq> behavior (bear_at m female)
                      then 2 else 1)))
   \<and> (snd (attempt_to_mate male female m))\<lparr>rand := rand m\<rparr> = m"
proof (intro conjI impI)
  assume "does_care_after_cubs (bear_at m female)"
  then show "attempt_to_mate male female m = (False, m)"
    by (simp add: attempt_to_mate_def)
next
  assume "\<not> does_care_after_cubs (bear_at m female)"
  then show "fst (attempt_to_mate male female m)
          = (shd (uniform_draws (rand m))
               < bear_reproduce m * real_of_int (level (bear_at m male))
                   / (if behavior (bear_at m male) \<noteq> behavior (bear_at m female)
                      then 2 else 1))"
    by (simp add: attempt_to_mate_def chance_to_reproduce_def random_random_def Let_def)
next
  show "(snd (attempt_to_mate male female m))\<lparr>rand := rand m\<rparr> = m"
    by (simp add: attempt_to_mate_def random_random_def Let_def)
qed

theorem attempt_to_mate_outcome_witness:
  "does_care_after_cubs (bear_at den 0)
   \<and> attempt_to_mate 1 0 den = (False, den)
   \<and> \<not> does_care_after_cubs (bear_at couple 1)
   \<and> fst (attempt_to_mate 0 1 couple)
   \<and> (snd (attempt_to_mate 0 1 couple))\<lparr>rand := rand couple\<rparr> = couple"
proof -
  have caring: "does_care_after_cubs (bear_at den 0)"
    and free: "\<not> does_care_after_cubs (bear_at couple 1)"
    by (simp_all add: den_def couple_def example_defs store_defs)
  from attempt_to_mate_outcome [of den 0 1] caring
  have "attempt_to_mate 1 0 den = (False, den)"
    by simp
  moreover from attempt_to_mate_outcome [of couple 1 0] free
  have "fst (attempt_to_mate 0 1 couple)"
    "(snd (attempt_to_mate 0 1 couple))\<lparr>rand := rand couple\<rparr> = couple"
    by (simp_all add: couple_def example_defs store_defs)
  ultimately show ?thesis
    using caring free by simp
qed

section \<open>Reproduction of sheep\<close>

lemma sheep_step_sheep:
  "get_sheep (sheep_step self m) =
     (if shd (uniform_draws (rand m)) < sheep_reproduce m
         \<and> int (length (get_sheep m)) < sheep_limit m
      then get_sheep m @ [model_unique_id m + 1] else get_sheep m)"
  by (simp add: sheep_step_def random_random_def generate_id_def schedule_defs Let_def)

lemma sheep_step_limit: "sheep_limit (sheep_step self m) = sheep_limit m"
  by (simp add: sheep_step_def random_random_def generate_id_def schedule_defs Let_def)

lemma sheep_step_bound:
  "int (length (get_sheep m)) \<le> sheep_limit m \<Longrightarrow>
   int (length (get_sheep (sheep_step self m))) \<le> sheep_limit m"
  by (simp add: sheep_step_sheep)

lemma sheep_steps_bound:
  "int (length (get_sheep m)) \<le> sheep_limit m \<Longrightarrow>
   int (length (get_sheep (fold sheep_step selves m))) \<le> sheep_limit (fold sheep_step selves m)
   \<and> sheep_limit (fold sheep_step selves m) = sheep_limit m"
proof (induction selves arbitrary: m)
  case Nil
  then show ?case by simp
next
  case (Cons s selves)
  from Cons.prems
  have "int (length (get_sheep (sheep_step s m))) \<le> sheep_limit (sheep_step s m)"
    by (simp add: sheep_step_bound sheep_step_limit)
  from Cons.IH [OF this] show ?case
    by (simp add: sheep_step_limit)
qed

text \<open>
  Claim C9. The step of a sheep registers one new sheep, with a new identifier, exactly when
  the uniform draw is below \<open>sheep_reproduce\<close> and the number of live sheep at that moment is
  below \<open>sheep_limit\<close>; otherwise the live sheep stay as they are. Hence a population within
  the limit stays within the limit after the steps of any number of sheep, whatever the
  draws.
\<close>

theorem sheep_reproduce_within_limit:
  "get_sheep (sheep_step self m) =
     (if shd (uniform_draws (rand m)) < sheep_reproduce m
         \<and> int (length (get_sheep m)) < sheep_limit m
      then get_sheep m @ [model_unique_id m + 1] else get_sheep m)
   \<and> (int (length (get_sheep m)) \<le> sheep_limit m \<longrightarrow>
        int (length (get_sheep (fold sheep_step selves m))) \<le> sheep_limit m)"
proof (intro conjI impI)
  show "get_sheep (sheep_step self m) =
     (if shd (uniform_draws (rand m)) < sheep_reproduce m
         \<and> int (length (get_sheep m)) < sheep_limit m
      then get_sheep m @ [model_unique_id m + 1] else get_sheep m)"
    by (rule sheep_step_sheep)
next
  assume "int (length (get_sheep m)) \<le> sheep_limit m"
  from sheep_steps_bound [OF this, of selves]
  show "int (length (get_sheep (fold sheep_step selves m))) \<le> sheep_limit m"
    by simp
qed

theorem sheep_reproduce_within_limit_witness:
  "int (length (get_sheep
      (empty_model\<lparr>sheep_limit := 3, model_unique_id := 3, sheep_agents := [1, 2]\<rparr>))) \<le> 3
   \<and> get_sheep (sheep_step 1
        (empty_model\<lparr>sheep_limit := 3, model_unique_id := 3, sheep_agents := [1, 2]\<rparr>))
      = [1, 2, 4]
   \<and> int (length (get_sheep (fold sheep_step [1, 2, 4]
        (empty_model\<lparr>sheep_limit := 3, model_unique_id := 3, sheep_agents := [1, 2]\<rparr>)))) \<le> 3"
  using sheep_reproduce_within_limit
    [of 1 "empty_model\<lparr>sheep_limit := 3, model_unique_id := 3, sheep_agents := [1, 2]\<rparr>"
      "[1, 2, 4]"]
  by (simp add: example_defs schedule_defs)

section \<open>A bear that dies during its own encounters\<close>

text \<open>
  Claim C1. A bear that has been removed from the scheduler should not act again in the same
  tick. In the store \<open>arena\<close> the aggressive bear at address 0 has no energy left and meets
  two bears. It loses the first combat and is removed from the scheduler; the loop of
  \<open>generate_encounters\<close> goes on, the removed bear chooses the bear at address 2, wins that
  combat, gains its reward and removes the bear at address 2. At the end of its step its
  energy is negative and it dies a second time, which removes an agent that is not
  registered.
\<close>

theorem removed_bear_attacks_and_dies_again:
  "(case encounter 0 arena of Inl e \<Rightarrow> False | Inr m1 \<Rightarrow> bear_agents m1 = [1, 2])
   \<and> (case generate_encounters 0 arena of
         Inl e \<Rightarrow> False
       | Inr m2 \<Rightarrow> bear_agents m2 = [1] \<and> accumulated_xp (bear_at m2 0) = 500)
   \<and> bear_step 0 arena = Inl RemoveAbsent"
  by (simp add: bear_step_def step_hunt_def step_care_def generate_encounters_def
      encounter_def attack_unfold bear_die_def gain_xp_def update_def after_draws_def
      and_then_def arena_def example_defs store_defs schedule_defs draw_defs numeral_2_eq_2)

section \<open>Release of the cubs\<close>

lemma flags_only_heap:
  "flags_only m m' \<Longrightarrow>
     heap m' a = (heap m a)\<lparr>is_under_parental_care := is_under_parental_care (heap m' a),
                   does_care_after_cubs := does_care_after_cubs (heap m' a)\<rparr>"
  by (simp add: flags_only_def)

lemma flags_only_fields:
  assumes "flags_only m m'"
  shows "is_female (heap m' a) = is_female (heap m a)"
    and "accumulated_xp (heap m' a) = accumulated_xp (heap m a)"
    and "cubs (heap m' a) = cubs (heap m a)"
    and "parental_care_countdown (heap m' a) = parental_care_countdown (heap m a)"
    and "energy (heap m' a) = energy (heap m a)"
    and "bear_agents m' = bear_agents m"
    and "sheep_agents m' = sheep_agents m"
    and "rand m' = rand m"
    and "xp_for_bear m' = xp_for_bear m"
proof -
  have h: "heap m' a = (heap m a)\<lparr>is_under_parental_care := is_under_parental_care (heap m' a),
                   does_care_after_cubs := does_care_after_cubs (heap m' a)\<rparr>"
    using assms by (rule flags_only_heap)
  show "is_female (heap m' a) = is_female (heap m a)" by (subst h) simp
  show "accumulated_xp (heap m' a) = accumulated_xp (heap m a)" by (subst h) simp
  show "cubs (heap m' a) = cubs (heap m a)" by (subst h) simp
  show "parental_care_countdown (heap m' a) = parental_care_countdown (heap m a)"
    by (subst h) simp
  show "energy (heap m' a) = energy (heap m a)" by (subst h) simp
  have m: "m'\<lparr>heap := heap m\<rparr> = m"
    using assms by (simp add: flags_only_def)
  show "bear_agents m' = bear_agents m"
    using arg_cong [OF m, of bear_agents] by simp
  show "sheep_agents m' = sheep_agents m"
    using arg_cong [OF m, of sheep_agents] by simp
  show "rand m' = rand m"
    using arg_cong [OF m, of rand] by simp
  show "xp_for_bear m' = xp_for_bear m"
    using arg_cong [OF m, of xp_for_bear] by simp
qed

lemma chase_cub_away_Inr:
  "is_female (heap m mo) \<Longrightarrow>
   chase_cub_away mo c m =
     Inr (modify_bear c (\<lambda>b. b\<lparr>is_under_parental_care := False\<rparr>)
           (modify_bear mo (\<lambda>b. b\<lparr>does_care_after_cubs := False\<rparr>) m))"
  by (simp add: chase_cub_away_def bear_at_def)

lemma release_loop:
  assumes "is_female (heap m mo)"
  shows "\<exists>m'. for_each cs (chase_cub_away mo) m = Inr m' \<and> flags_only m m'
     \<and> (\<forall>c\<in>set cs. \<not> is_under_parental_care (heap m' c))
     \<and> (cs \<noteq> [] \<longrightarrow> \<not> does_care_after_cubs (heap m' mo))
     \<and> (\<forall>a. is_under_parental_care (heap m' a) \<longrightarrow> is_under_parental_care (heap m a))
     \<and> (\<forall>a. does_care_after_cubs (heap m' a) \<longrightarrow> does_care_after_cubs (heap m a))"
  using assms
proof (induction cs arbitrary: m)
  case Nil
  then show ?case by (simp add: flags_only_refl)
next
  case (Cons c cs)
  define m1 where "m1 = modify_bear c (\<lambda>b. b\<lparr>is_under_parental_care := False\<rparr>)
           (modify_bear mo (\<lambda>b. b\<lparr>does_care_after_cubs := False\<rparr>) m)"
  have c1: "chase_cub_away mo c m = Inr m1"
    using Cons.prems by (simp add: chase_cub_away_Inr m1_def)
  have f1: "flags_only m m1"
    using c1 by (rule chase_cub_away_flags_only)
  have fem1: "is_female (heap m1 mo)"
    using Cons.prems flags_only_fields(1) [OF f1] by simp
  have c_m1: "\<not> is_under_parental_care (heap m1 c)" and mo_m1: "\<not> does_care_after_cubs (heap m1 mo)"
    by (simp_all add: m1_def modify_bear_def)
  have mono1: "\<And>a. is_under_parental_care (heap m1 a) \<Longrightarrow> is_under_parental_care (heap m a)"
    "\<And>a. does_care_after_cubs (heap m1 a) \<Longrightarrow> does_care_after_cubs (heap m a)"
    by (auto simp: m1_def modify_bear_def split: if_splits)
  from Cons.IH [OF fem1] obtain m' where
    run: "for_each cs (chase_cub_away mo) m1 = Inr m'" and f2: "flags_only m1 m'" and
    rel: "\<forall>c\<in>set cs. \<not> is_under_parental_care (heap m' c)" and
    mono2: "\<forall>a. is_under_parental_care (heap m' a) \<longrightarrow> is_under_parental_care (heap m1 a)"
      "\<forall>a. does_care_after_cubs (heap m' a) \<longrightarrow> does_care_after_cubs (heap m1 a)"
    by blast
  have "for_each (c # cs) (chase_cub_away mo) m = Inr m'"
    using c1 run by (simp add: and_then_def)
  moreover have "flags_only m m'"
    using f1 f2 by (rule flags_only_trans)
  moreover have "\<forall>x\<in>set (c # cs). \<not> is_under_parental_care (heap m' x)"
    using rel c_m1 mono2(1) by auto
  moreover have "\<not> does_care_after_cubs (heap m' mo)"
    using mo_m1 mono2(2) by blast
  moreover have "\<forall>a. is_under_parental_care (heap m' a) \<longrightarrow> is_under_parental_care (heap m a)"
    using mono1(1) mono2(1) by blast
  moreover have "\<forall>a. does_care_after_cubs (heap m' a) \<longrightarrow> does_care_after_cubs (heap m a)"
    using mono1(2) mono2(2) by blast
  ultimately show ?case
    by blast
qed

text \<open>
  In the store \<open>den\<close> the step of the mother releases the cub, and her list of cubs
  still holds the cub afterwards: the list is not cleared.
\<close>

theorem cubs_list_kept_after_release:
  "step_care 0 den = Inr den_released \<and> cubs (bear_at den_released 0) = Some [1]"
  by (simp add: step_care_def chase_cub_away_def den_released_def and_then_def den_def
      example_defs store_defs)

text \<open>
  Claim C5, amended. When a mother that cares for her cubs finds her countdown of parental
  care at 0 or below during her step, every cub of her list is released: her flag
  \<open>does_care_after_cubs\<close> and the flag \<open>is_under_parental_care\<close> of every cub are
  cleared, while her list of cubs and her countdown stay as they are. Otherwise the
  countdown is decremented by 1 and nothing else changes.
\<close>

theorem step_care_release_or_countdown:
  assumes "does_care_after_cubs (bear_at m self)" and "is_female (bear_at m self)"
    and "parental_care_countdown (bear_at m self) = Some countdown"
    and "cubs (bear_at m self) = Some cs" and "cs \<noteq> []"
  shows "\<exists>m'. step_care self m = Inr m'
     \<and> (if countdown \<le> 0
         then \<not> does_care_after_cubs (bear_at m' self)
              \<and> (\<forall>cub\<in>set cs. \<not> is_under_parental_care (bear_at m' cub))
              \<and> cubs (bear_at m' self) = Some cs
              \<and> parental_care_countdown (bear_at m' self) = Some countdown
         else m' = modify_bear self
                     (\<lambda>b. b\<lparr>parental_care_countdown := Some (countdown - 1)\<rparr>) m)"
proof (cases "countdown \<le> 0")
  case True
  from release_loop [of m self cs] assms(2) obtain m' where
    run: "for_each cs (chase_cub_away self) m = Inr m'" and fl: "flags_only m m'" and
    rel: "\<forall>c\<in>set cs. \<not> is_under_parental_care (heap m' c)" and
    mo: "cs \<noteq> [] \<longrightarrow> \<not> does_care_after_cubs (heap m' self)"
    unfolding bear_at_def by blast
  have "step_care self m = Inr m'"
    using assms True run by (simp add: step_care_def)
  moreover have "cubs (bear_at m' self) = Some cs"
    "parental_care_countdown (bear_at m' self) = Some countdown"
    using assms flags_only_fields(3,4) [OF fl, of self] by (simp_all add: bear_at_def)
  ultimately show ?thesis
    using True rel mo assms(5) by (simp add: bear_at_def)
next
  case False
  then show ?thesis
    using assms by (simp add: step_care_def)
qed

theorem step_care_release_or_countdown_witness:
  "\<exists>m'. step_care 0 den = Inr m'
      \<and> \<not> does_care_after_cubs (bear_at m' 0)
      \<and> \<not> is_under_parental_care (bear_at m' 1)
      \<and> cubs (bear_at m' 0) = Some [1]"
proof -
  have "does_care_after_cubs (bear_at den 0)" "is_female (bear_at den 0)"
    "parental_care_countdown (bear_at den 0) = Some 0" "cubs (bear_at den 0) = Some [1]"
    "[1::nat] \<noteq> []"
    by (simp_all add: den_def example_defs store_defs)
  from step_care_release_or_countdown [OF this] show ?thesis
    by auto
qed

section \<open>The outcome of a combat\<close>

lemma bear_die_registered:
  assumes reg: "self \<in> set (bear_agents m)"
    and care: "does_care_after_cubs (bear_at m self) \<longrightarrow>
                 is_female (bear_at m self) \<and> cubs (bear_at m self) \<noteq> None"
  shows "\<exists>m1. bear_die self m = Inr (m1\<lparr>bear_agents := removeAll self (bear_agents m)\<rparr>)
            \<and> flags_only m m1"
proof (cases "does_care_after_cubs (bear_at m self)")
  case True
  with care obtain cs where cs: "cubs (bear_at m self) = Some cs" and fem: "is_female (heap m self)"
    by (auto simp: bear_at_def)
  from release_loop [OF fem, of cs] obtain m1 where
    run: "for_each cs (chase_cub_away self) m = Inr m1" and fl: "flags_only m m1"
    by blast
  have "bear_agents m1 = bear_agents m"
    using fl by (rule flags_only_fields)
  with reg have "schedule_remove_bear self m1
      = Inr (m1\<lparr>bear_agents := removeAll self (bear_agents m)\<rparr>)"
    by (simp add: schedule_remove_bear_def)
  with True cs run fl show ?thesis
    by (auto simp: bear_die_def and_then_def)
next
  case False
  with reg have "bear_die self m = Inr (m\<lparr>bear_agents := removeAll self (bear_agents m)\<rparr>)"
    by (simp add: bear_die_def and_then_def schedule_remove_bear_def)
  then show ?thesis
    using flags_only_refl by blast
qed

lemma combat_resolution:
  assumes diff: "winner \<noteq> loser"
    and reg: "loser \<in> set (bear_agents m)" "winner \<in> set (bear_agents m)"
    and care: "does_care_after_cubs (bear_at m loser) \<longrightarrow>
                 is_female (bear_at m loser) \<and> cubs (bear_at m loser) \<noteq> None"
  shows "\<exists>m'. and_then
            (bear_die loser
               (modify_bear winner
                  (gain_xp (xp_for_bear m + accumulated_xp (bear_at m loser) / 2))
                  (after_draws m)))
            (\<lambda>m3. Inr (update winner m3)) = Inr m'
      \<and> bear_agents m' = removeAll loser (bear_agents m)
      \<and> accumulated_xp (bear_at m' winner) =
          accumulated_xp (bear_at m winner)
            + (xp_for_bear m + accumulated_xp (bear_at m loser) / 2)
      \<and> level (bear_at m' winner) =
          update_level (accumulated_xp (bear_at m' winner)) (level (bear_at m winner))"
proof -
  define x where "x = xp_for_bear m + accumulated_xp (bear_at m loser) / 2"
  define m2 where "m2 = modify_bear winner (gain_xp x) (after_draws m)"
  have agents2: "bear_agents m2 = bear_agents m"
    by (simp add: m2_def modify_bear_def after_draws_def)
  have loser2: "bear_at m2 loser = bear_at m loser"
    using diff by (simp add: m2_def modify_bear_def after_draws_def bear_at_def)
  have winner2: "accumulated_xp (heap m2 winner) = accumulated_xp (heap m winner) + x"
    "level (heap m2 winner) = level (heap m winner)"
    by (simp_all add: m2_def modify_bear_def after_draws_def gain_xp_def)
  from bear_die_registered [of loser m2] reg care agents2 loser2 obtain m3 where
    die: "bear_die loser m2 = Inr (m3\<lparr>bear_agents := removeAll loser (bear_agents m)\<rparr>)" and
    fl: "flags_only m2 m3"
    by auto
  define m' where "m' = update winner (m3\<lparr>bear_agents := removeAll loser (bear_agents m)\<rparr>)"
  have run: "and_then (bear_die loser m2) (\<lambda>m3. Inr (update winner m3)) = Inr m'"
    using die by (simp add: and_then_def m'_def)
  have xp3: "accumulated_xp (heap m3 winner) = accumulated_xp (heap m winner) + x"
    using flags_only_fields(2) [OF fl, of winner] winner2 by simp
  have lvl3: "level (heap m3 winner) = level (heap m winner)"
    using flags_only_level [OF fl, of winner] winner2 by simp
  have "bear_agents m' = removeAll loser (bear_agents m)"
    by (simp add: m'_def update_def modify_bear_def)
  moreover have "accumulated_xp (bear_at m' winner) = accumulated_xp (bear_at m winner) + x"
    using xp3 by (simp add: m'_def update_def modify_bear_def bear_at_def)
  moreover have "level (bear_at m' winner) =
      update_level (accumulated_xp (bear_at m' winner)) (level (bear_at m winner))"
    using xp3 lvl3 by (simp add: m'_def update_def modify_bear_def bear_at_def)
  ultimately show ?thesis
    using run unfolding m2_def x_def by blast
qed

text \<open>
  The spec lets the attacker draw with the strength of the attacked bear, which makes the
  first draw of the code, the one made with \<open>other_bear_attack_strength\<close>, the draw of the
  attacker. In the store \<open>duel\<close> that draw is 2 and the other draw is 5: the attacker holds
  the smaller draw, and it is the attacker that is removed.
\<close>

theorem holder_of_smaller_first_draw_is_removed:
  "real_of_int (snd (attack_strengths (bear_at duel 0) (bear_at duel 1)))
     * shd (exponential_draws (rand duel)) = 2
   \<and> real_of_int (fst (attack_strengths (bear_at duel 0) (bear_at duel 1)))
       * shd (stl (exponential_draws (rand duel))) = 5
   \<and> attack 0 1 duel = Inr duel_after
   \<and> bear_agents duel_after = [1]"
  by (simp add: attack_unfold attack_strengths_def bear_die_def gain_xp_def update_def
      after_draws_def and_then_def duel_after_def duel_def example_defs store_defs
      schedule_defs level_after_one_sheep_and_one_bear)

text \<open>
  Claim C3, amended. A combat between two distinct registered bears always ends, and the
  order of the two draws decides it: when the first draw, made with
  \<open>other_bear_attack_strength\<close>, is smaller than the second draw, made with
  \<open>this_bear_attack_strength\<close>, the attacked bear wins and the attacker loses; otherwise
  (also when the draws are equal) the attacker wins. With the first draw taken as the draw
  of the attacker, as the spec takes it, the holder of the smaller draw loses; the smaller
  draw wins only when the first draw is counted for the attacked bear. The loser, and only
  the loser, is removed from the scheduler by \<open>die\<close>; the experience of the winner grows by
  \<open>xp_for_bear\<close> plus half of the experience of the loser, and the level of the winner is
  then recomputed by \<open>update\<close> from that experience.
\<close>

theorem attack_outcome:
  assumes "self \<noteq> other"
    and "self \<in> set (bear_agents m)" and "other \<in> set (bear_agents m)"
    and "0 \<le> level (bear_at m self)"
    and "does_care_after_cubs (bear_at m self) \<longrightarrow>
           is_female (bear_at m self) \<and> cubs (bear_at m self) \<noteq> None"
    and "does_care_after_cubs (bear_at m other) \<longrightarrow>
           is_female (bear_at m other) \<and> cubs (bear_at m other) \<noteq> None"
  shows "\<exists>m'. attack self other m = Inr m'
     \<and> (let first_draw =
               real_of_int (snd (attack_strengths (bear_at m self) (bear_at m other)))
                 * shd (exponential_draws (rand m));
             second_draw =
               real_of_int (fst (attack_strengths (bear_at m self) (bear_at m other)))
                 * shd (stl (exponential_draws (rand m)));
             winner = (if first_draw < second_draw then other else self);
             loser = (if first_draw < second_draw then self else other)
         in bear_agents m' = removeAll loser (bear_agents m)
            \<and> winner \<in> set (bear_agents m') \<and> loser \<notin> set (bear_agents m')
            \<and> accumulated_xp (bear_at m' winner) =
                accumulated_xp (bear_at m winner)
                  + (xp_for_bear m + accumulated_xp (bear_at m loser) / 2)
            \<and> level (bear_at m' winner) =
                update_level (accumulated_xp (bear_at m' winner)) (level (bear_at m winner)))"
proof (cases "real_of_int (level (bear_at m self)) * shd (exponential_draws (rand m))
              < real_of_int (level (bear_at m self)) * shd (stl (exponential_draws (rand m)))")
  case True
  from combat_resolution [of other self m] assms obtain m' where
    "and_then
       (bear_die self
          (modify_bear other
             (gain_xp (xp_for_bear m + accumulated_xp (bear_at m self) / 2)) (after_draws m)))
       (\<lambda>m3. Inr (update other m3)) = Inr m'"
    "bear_agents m' = removeAll self (bear_agents m)"
    "accumulated_xp (bear_at m' other) =
       accumulated_xp (bear_at m other) + (xp_for_bear m + accumulated_xp (bear_at m self) / 2)"
    "level (bear_at m' other) =
       update_level (accumulated_xp (bear_at m' other)) (level (bear_at m other))"
    by auto
  with True assms(1,3,4) show ?thesis
    by (simp add: attack_unfold attack_strengths_def)
next
  case False
  from combat_resolution [of self other m] assms obtain m' where
    "and_then
       (bear_die other
          (modify_bear self
             (gain_xp (xp_for_bear m + accumulated_xp (bear_at m other) / 2)) (after_draws m)))
       (\<lambda>m3. Inr (update self m3)) = Inr m'"
    "bear_agents m' = removeAll other (bear_agents m)"
    "accumulated_xp (bear_at m' self) =
       accumulated_xp (bear_at m self) + (xp_for_bear m + accumulated_xp (bear_at m other) / 2)"
    "level (bear_at m' self) =
       update_level (accumulated_xp (bear_at m' self)) (level (bear_at m self))"
    by auto
  with False assms(1,2,4) show ?thesis
    by (simp add: attack_unfold attack_strengths_def)
qed

theorem attack_outcome_witness:
  "\<exists>m'. attack 0 1 duel = Inr m'
     \<and> bear_agents m' = [1]
     \<and> accumulated_xp (bear_at m' 1) = 600
     \<and> level (bear_at m' 1) = 6"
proof -
  have "(0::nat) \<noteq> 1" "0 \<in> set (bear_agents duel)" "1 \<in> set (bear_agents duel)"
    "0 \<le> level (bear_at duel 0)"
    "does_care_after_cubs (bear_at duel 0) \<longrightarrow>
       is_female (bear_at duel 0) \<and> cubs (bear_at duel 0) \<noteq> None"
    "does_care_after_cubs (bear_at duel 1) \<longrightarrow>
       is_female (bear_at duel 1) \<and> cubs (bear_at duel 1) \<noteq> None"
    by (simp_all add: duel_def example_defs store_defs)
  from attack_outcome [OF this] show ?thesis
    by (auto simp: attack_strengths_def duel_def example_defs store_defs
        level_after_one_sheep_and_one_bear)
qed

section \<open>Birth\<close>

lemma Bear_init_unfold:
  "Bear_init uid e bh father_a mother_a m =
     (heap_size m,
      m\<lparr>rand := (rand m)\<lparr>uniform_draws := stl (uniform_draws (rand m))\<rparr>,
        heap := (heap m)(heap_size m :=
          \<lparr>unique_id = uid, energy = e, behavior = bh,
           is_under_parental_care = False, does_care_after_cubs = False,
           mother = mother_a, level = 1, accumulated_xp = 0,
           lower_cub_limit = lower_cub (inherited_limits m bh father_a mother_a),
           upper_cub_limit = upper_cub (inherited_limits m bh father_a mother_a),
           lower_parental_care_limit =
             lower_parental_care (inherited_limits m bh father_a mother_a),
           upper_parental_care_limit =
             upper_parental_care (inherited_limits m bh father_a mother_a),
           is_female = (shd (uniform_draws (rand m)) < 0.5),
           cubs = None, parental_care_countdown = None\<rparr>),
        heap_size := Suc (heap_size m)\<rparr>)"
  by (simp add: Bear_init_def random_random_def allocate_bear_def Let_def)

lemma make_cubs_step:
  assumes "self < heap_size m" and "father < heap_size m"
  shows "\<exists>m3. make_cubs (Suc n) cub_cnt self father m
       = and_then (make_cubs n cub_cnt self father m3)
                   (\<lambda>(rest, m4). Inr (heap_size m # rest, m4))
     \<and> heap_size m3 = Suc (heap_size m)
     \<and> bear_agents m3 = bear_agents m
     \<and> (\<forall>a. a \<noteq> heap_size m \<longrightarrow> heap m3 a = heap m a)
     \<and> cub_of m self father cub_cnt (heap m3 (heap_size m))"
proof -
  define bh where
    "bh = [behavior (heap m father), behavior (heap m self)]
            ! (shd (index_draws (rand m)) mod 2)"
  define m2 where
    "m2 = m\<lparr>model_unique_id := model_unique_id m + 1,
            rand := (rand m)\<lparr>index_draws := stl (index_draws (rand m))\<rparr>\<rparr>"
  define m3 where
    "m3 = snd (Bear_init (model_unique_id m + 1) (energy (heap m self) / real_of_int cub_cnt)
                 bh (Some father) (Some self) m2)"
  have "make_cubs (Suc n) cub_cnt self father m
       = and_then (make_cubs n cub_cnt self father m3)
                   (\<lambda>(rest, m4). Inr (heap_size m # rest, m4))"
    by (simp add: generate_id_def random_choice_def Bear_init_unfold and_then_def bear_at_def
        m3_def m2_def bh_def Let_def numeral_2_eq_2 split: sum.split prod.split)
  moreover have "heap_size m3 = Suc (heap_size m)" "bear_agents m3 = bear_agents m"
    by (simp_all add: m3_def m2_def Bear_init_unfold)
  moreover have "\<forall>a. a \<noteq> heap_size m \<longrightarrow> heap m3 a = heap m a"
    by (simp add: m3_def m2_def Bear_init_unfold)
  moreover have "cub_of m self father cub_cnt (heap m3 (heap_size m))"
    by (simp add: m3_def m2_def Bear_init_unfold cub_of_def inherited_limits_def bear_at_def)
  ultimately show ?thesis
    by blast
qed

lemma make_cubs_spec:
  assumes "self < heap_size m" and "father < heap_size m"
  shows "\<exists>m'. make_cubs n cub_cnt self father m = Inr ([heap_size m ..< heap_size m + n], m')
     \<and> heap_size m' = heap_size m + n
     \<and> bear_agents m' = bear_agents m
     \<and> (\<forall>a<heap_size m. heap m' a = heap m a)
     \<and> (\<forall>c. heap_size m \<le> c \<longrightarrow> c < heap_size m + n
            \<longrightarrow> cub_of m self father cub_cnt (heap m' c))"
  using assms
proof (induction n arbitrary: m)
  case 0
  then show ?case by simp
next
  case (Suc n)
  from make_cubs_step [OF Suc.prems, of n cub_cnt] obtain m3 where
    step: "make_cubs (Suc n) cub_cnt self father m
       = and_then (make_cubs n cub_cnt self father m3)
                   (\<lambda>(rest, m4). Inr (heap_size m # rest, m4))" and
    size3: "heap_size m3 = Suc (heap_size m)" and
    agents3: "bear_agents m3 = bear_agents m" and
    frame3: "\<forall>a. a \<noteq> heap_size m \<longrightarrow> heap m3 a = heap m a" and
    cub3: "cub_of m self father cub_cnt (heap m3 (heap_size m))"
    by auto
  have alloc3: "self < heap_size m3" "father < heap_size m3"
    using Suc.prems size3 by simp_all
  from Suc.IH [OF alloc3] obtain m' where
    run: "make_cubs n cub_cnt self father m3 = Inr ([heap_size m3 ..< heap_size m3 + n], m')" and
    size': "heap_size m' = heap_size m3 + n" and
    agents': "bear_agents m' = bear_agents m3" and
    frame': "\<forall>a<heap_size m3. heap m' a = heap m3 a" and
    cubs': "\<forall>c. heap_size m3 \<le> c \<longrightarrow> c < heap_size m3 + n
            \<longrightarrow> cub_of m3 self father cub_cnt (heap m' c)"
    by blast
  have same: "cub_of m3 self father cub_cnt = cub_of m self father cub_cnt"
    using frame3 Suc.prems by (auto simp: cub_of_def fun_eq_iff)
  have "make_cubs (Suc n) cub_cnt self father m
      = Inr ([heap_size m ..< heap_size m + Suc n], m')"
    using step run size3 by (simp add: and_then_def upt_conv_Cons)
  moreover have "heap_size m' = heap_size m + Suc n"
    using size' size3 by simp
  moreover have "bear_agents m' = bear_agents m"
    using agents' agents3 by simp
  moreover have "\<forall>a<heap_size m. heap m' a = heap m a"
    using frame' frame3 size3 by auto
  moreover have "\<forall>c. heap_size m \<le> c \<longrightarrow> c < heap_size m + Suc n
            \<longrightarrow> cub_of m self father cub_cnt (heap m' c)"
  proof (intro allI impI)
    fix c assume c: "heap_size m \<le> c" "c < heap_size m + Suc n"
    show "cub_of m self father cub_cnt (heap m' c)"
    proof (cases "c = heap_size m")
      case True
      then have "heap m' c = heap m3 c"
        using frame' size3 by simp
      with cub3 True show ?thesis by simp
    next
      case False
      with c size3 have "heap_size m3 \<le> c" "c < heap_size m3 + n"
        by simp_all
      with cubs' same show ?thesis by simp
    qed
  qed
  ultimately show ?case
    by blast
qed

lemma flags_only_agents:
  assumes "flags_only a b"
  shows "flags_only (a\<lparr>bear_agents := xs\<rparr>) (b\<lparr>bear_agents := xs\<rparr>)"
proof -
  have eq: "b\<lparr>heap := heap a\<rparr> = a" and hp: "\<forall>x. heap b x =
        (heap a x)\<lparr>is_under_parental_care := is_under_parental_care (heap b x),
                   does_care_after_cubs := does_care_after_cubs (heap b x)\<rparr>"
    using assms by (simp_all add: flags_only_def)
  have "b\<lparr>bear_agents := xs, heap := heap a\<rparr> = (b\<lparr>heap := heap a\<rparr>)\<lparr>bear_agents := xs\<rparr>"
    by (cases b) simp
  also have "\<dots> = a\<lparr>bear_agents := xs\<rparr>"
    by (simp only: eq)
  finally show ?thesis
    using hp by (simp add: flags_only_def)
qed

lemma bond_loop:
  assumes "is_female (heap m mo)"
  shows "\<exists>m'. for_each cs (\<lambda>cub mm. bond_with_cub mo cub (schedule_add_bear cub mm)) m = Inr m'
     \<and> flags_only (m\<lparr>bear_agents := bear_agents m @ cs\<rparr>) m'
     \<and> (\<forall>c\<in>set cs. is_under_parental_care (heap m' c))
     \<and> (cs \<noteq> [] \<longrightarrow> does_care_after_cubs (heap m' mo))
     \<and> (\<forall>a. is_under_parental_care (heap m a) \<longrightarrow> is_under_parental_care (heap m' a))
     \<and> (\<forall>a. does_care_after_cubs (heap m a) \<longrightarrow> does_care_after_cubs (heap m' a))"
  using assms
proof (induction cs arbitrary: m)
  case Nil
  then show ?case by (simp add: flags_only_refl)
next
  case (Cons c cs)
  define m1 where "m1 = modify_bear c (\<lambda>b. b\<lparr>is_under_parental_care := True\<rparr>)
           (modify_bear mo (\<lambda>b. b\<lparr>does_care_after_cubs := True\<rparr>)
              (m\<lparr>bear_agents := bear_agents m @ [c]\<rparr>))"
  have b1: "bond_with_cub mo c (schedule_add_bear c m) = Inr m1"
    using Cons.prems by (simp add: bond_with_cub_def schedule_add_bear_def bear_at_def m1_def)
  have f1: "flags_only (m\<lparr>bear_agents := bear_agents m @ [c]\<rparr>) m1"
    by (auto simp: flags_only_def m1_def modify_bear_def)
  have agents1: "bear_agents m1 = bear_agents m @ [c]"
    by (simp add: m1_def modify_bear_def)
  have fem1: "is_female (heap m1 mo)"
    using Cons.prems flags_only_fields(1) [OF f1, of mo] by simp
  have c_m1: "is_under_parental_care (heap m1 c)" and mo_m1: "does_care_after_cubs (heap m1 mo)"
    by (simp_all add: m1_def modify_bear_def)
  have mono1: "\<And>a. is_under_parental_care (heap m a) \<Longrightarrow> is_under_parental_care (heap m1 a)"
    "\<And>a. does_care_after_cubs (heap m a) \<Longrightarrow> does_care_after_cubs (heap m1 a)"
    by (auto simp: m1_def modify_bear_def)
  from Cons.IH [OF fem1] obtain m' where
    run: "for_each cs (\<lambda>cub mm. bond_with_cub mo cub (schedule_add_bear cub mm)) m1 = Inr m'" and
    f2: "flags_only (m1\<lparr>bear_agents := bear_agents m1 @ cs\<rparr>) m'" and
    rel: "\<forall>c\<in>set cs. is_under_parental_care (heap m' c)" and
    mono2: "\<forall>a. is_under_parental_care (heap m1 a) \<longrightarrow> is_under_parental_care (heap m' a)"
      "\<forall>a. does_care_after_cubs (heap m1 a) \<longrightarrow> does_care_after_cubs (heap m' a)"
    by blast
  have "for_each (c # cs) (\<lambda>cub mm. bond_with_cub mo cub (schedule_add_bear cub mm)) m = Inr m'"
    using b1 run by (simp add: and_then_def)
  moreover have "flags_only (m\<lparr>bear_agents := bear_agents m @ c # cs\<rparr>) m'"
  proof -
    from flags_only_agents [OF f1, of "bear_agents m @ c # cs"]
    have "flags_only (m\<lparr>bear_agents := bear_agents m @ c # cs\<rparr>)
            (m1\<lparr>bear_agents := bear_agents m @ c # cs\<rparr>)"
      by simp
    moreover have "flags_only (m1\<lparr>bear_agents := bear_agents m @ c # cs\<rparr>) m'"
      using f2 agents1 by simp
    ultimately show ?thesis
      by (rule flags_only_trans)
  qed
  moreover have "\<forall>x\<in>set (c # cs). is_under_parental_care (heap m' x)"
    using rel c_m1 mono2(1) by auto
  moreover have "does_care_after_cubs (heap m' mo)"
    using mo_m1 mono2(2) by blast
  moreover have "\<forall>a. is_under_parental_care (heap m a) \<longrightarrow> is_under_parental_care (heap m' a)"
    using mono1(1) mono2(1) by blast
  moreover have "\<forall>a. does_care_after_cubs (heap m a) \<longrightarrow> does_care_after_cubs (heap m' a)"
    using mono1(2) mono2(2) by blast
  ultimately show ?case
    by blast
qed

lemma flags_only_more_fields:
  assumes "flags_only m m'"
  shows "mother (heap m' a) = mother (heap m a)"
    and "lower_cub_limit (heap m' a) = lower_cub_limit (heap m a)"
    and "upper_cub_limit (heap m' a) = upper_cub_limit (heap m a)"
    and "heap_size m' = heap_size m"
proof -
  have h: "heap m' a = (heap m a)\<lparr>is_under_parental_care := is_under_parental_care (heap m' a),
                   does_care_after_cubs := does_care_after_cubs (heap m' a)\<rparr>"
    using assms by (rule flags_only_heap)
  show "mother (heap m' a) = mother (heap m a)" by (subst h) simp
  show "lower_cub_limit (heap m' a) = lower_cub_limit (heap m a)" by (subst h) simp
  show "upper_cub_limit (heap m' a) = upper_cub_limit (heap m a)" by (subst h) simp
  have m: "m'\<lparr>heap := heap m\<rparr> = m"
    using assms by (simp add: flags_only_def)
  show "heap_size m' = heap_size m"
    using arg_cong [OF m, of heap_size] by simp
qed

text \<open>
  Claim C8. For a female bear of the store whose limits admit a draw, \<open>give_birth\<close> returns.
  The litter size is the integer drawn from the half-open interval between her
  \<open>lower_cub_limit\<close> and her \<open>upper_cub_limit\<close>. Her energy is halved, every cub receives
  that halved energy divided by the litter size, every cub is registered with the scheduler
  and is under parental care with her as its mother, and she cares for cubs afterwards.
\<close>

theorem give_birth_litter:
  assumes alloc: "self < heap_size m" "father < heap_size m"
    and fem: "is_female (bear_at m self)"
    and litter: "1 \<le> lower_cub_limit (bear_at m self)"
      "lower_cub_limit (bear_at m self) < upper_cub_limit (bear_at m self)"
    and care: "lower_parental_care_limit (bear_at m self)
                 < upper_parental_care_limit (bear_at m self)"
  shows "\<exists>m' cub_cnt cs. give_birth self father m = Inr m'
     \<and> cub_cnt = lower_cub_limit (bear_at m self)
          + int (shd (index_draws (rand m))
                   mod nat (upper_cub_limit (bear_at m self) - lower_cub_limit (bear_at m self)))
     \<and> lower_cub_limit (bear_at m self) \<le> cub_cnt
     \<and> cub_cnt < upper_cub_limit (bear_at m self)
     \<and> cs = [heap_size m ..< heap_size m + nat cub_cnt]
     \<and> cubs (bear_at m' self) = Some cs \<and> int (length cs) = cub_cnt
     \<and> energy (bear_at m' self) = energy (bear_at m self) / 2
     \<and> does_care_after_cubs (bear_at m' self)
     \<and> bear_agents m' = bear_agents m @ cs
     \<and> (\<forall>cub\<in>set cs.
           energy (bear_at m' cub) = energy (bear_at m self) / 2 / real_of_int cub_cnt
           \<and> is_under_parental_care (bear_at m' cub)
           \<and> mother (bear_at m' cub) = Some self
           \<and> cub \<in> set (bear_agents m'))"
proof -
  define lo where "lo = lower_cub_limit (heap m self)"
  define hi where "hi = upper_cub_limit (heap m self)"
  define cub_cnt where "cub_cnt = lo + int (shd (index_draws (rand m)) mod nat (hi - lo))"
  define m1 where "m1 = m\<lparr>rand := (rand m)\<lparr>index_draws := stl (index_draws (rand m))\<rparr>\<rparr>"
  define m2 where "m2 = modify_bear self (\<lambda>b. b\<lparr>energy := energy b / 2\<rparr>) m1"
  have lohi: "1 \<le> lo" "lo < hi"
    using litter by (simp_all add: lo_def hi_def bear_at_def)
  have draw: "integers (lower_cub_limit (bear_at m self)) (upper_cub_limit (bear_at m self)) m
      = Inr (cub_cnt, m1)"
    using lohi by (simp add: integers_def bear_at_def cub_cnt_def m1_def lo_def hi_def)
  have range: "lo \<le> cub_cnt" "cub_cnt < hi"
  proof -
    show "lo \<le> cub_cnt" by (simp add: cub_cnt_def)
    have "shd (index_draws (rand m)) mod nat (hi - lo) < nat (hi - lo)"
      using lohi by simp
    then show "cub_cnt < hi"
      unfolding cub_cnt_def by linarith
  qed
  have size2: "heap_size m2 = heap_size m" and agents2: "bear_agents m2 = bear_agents m"
    and energy2: "energy (heap m2 self) = energy (heap m self) / 2"
    and fem2: "is_female (heap m2 self)"
    and pc2: "lower_parental_care_limit (heap m2 self) = lower_parental_care_limit (heap m self)"
       "upper_parental_care_limit (heap m2 self) = upper_parental_care_limit (heap m self)"
    using fem by (simp_all add: m2_def m1_def modify_bear_def bear_at_def)
  from make_cubs_spec [of self m2 father "nat cub_cnt" cub_cnt] alloc size2 obtain m3 where
    cubs3: "make_cubs (nat cub_cnt) cub_cnt self father m2
       = Inr ([heap_size m ..< heap_size m + nat cub_cnt], m3)" and
    agents3: "bear_agents m3 = bear_agents m2" and
    frame3: "\<forall>a<heap_size m. heap m3 a = heap m2 a" and
    new3: "\<forall>c. heap_size m \<le> c \<longrightarrow> c < heap_size m + nat cub_cnt
            \<longrightarrow> cub_of m2 self father cub_cnt (heap m3 c)"
    by auto
  define cs where "cs = [heap_size m ..< heap_size m + nat cub_cnt]"
  define m4 where "m4 = modify_bear self (\<lambda>b. b\<lparr>cubs := Some cs\<rparr>) m3"
  define countdown where "countdown = lower_parental_care_limit (heap m self)
     + int (shd (index_draws (rand m4))
         mod nat (upper_parental_care_limit (heap m self) - lower_parental_care_limit (heap m self)))"
  define m5 where "m5 = m4\<lparr>rand := (rand m4)\<lparr>index_draws := stl (index_draws (rand m4))\<rparr>\<rparr>"
  define m6 where
    "m6 = modify_bear self (\<lambda>b. b\<lparr>parental_care_countdown := Some countdown\<rparr>) m5"
  have self3: "heap m3 self = heap m2 self"
    using frame3 alloc by simp
  have draw4: "integers (lower_parental_care_limit (bear_at m4 self))
      (upper_parental_care_limit (bear_at m4 self)) m4 = Inr (countdown, m5)"
    using care self3 pc2
    by (simp add: integers_def bear_at_def m4_def modify_bear_def countdown_def m5_def)
  have self6: "heap m6 self = (heap m2 self)\<lparr>cubs := Some cs, parental_care_countdown := Some countdown\<rparr>"
    using self3 by (simp add: m6_def m5_def m4_def modify_bear_def)
  have other6: "\<And>a. a \<noteq> self \<Longrightarrow> heap m6 a = heap m3 a"
    by (simp add: m6_def m5_def m4_def modify_bear_def)
  have agents6: "bear_agents m6 = bear_agents m"
    using agents3 agents2 by (simp add: m6_def m5_def m4_def modify_bear_def)
  have fem6: "is_female (heap m6 self)"
    using self6 fem2 by simp
  from bond_loop [OF fem6, of cs] obtain m' where
    bond: "for_each cs (\<lambda>cub mm. bond_with_cub self cub (schedule_add_bear cub mm)) m6 = Inr m'" and
    fl: "flags_only (m6\<lparr>bear_agents := bear_agents m6 @ cs\<rparr>) m'" and
    under: "\<forall>c\<in>set cs. is_under_parental_care (heap m' c)" and
    caring: "cs \<noteq> [] \<longrightarrow> does_care_after_cubs (heap m' self)"
    by blast
  have run: "give_birth self father m = Inr m'"
    using draw cubs3 draw4 bond
    by (simp add: give_birth_def and_then_def Let_def m2_def cs_def m4_def m6_def)
  have len: "int (length cs) = cub_cnt"
    using range lohi by (simp add: cs_def)
  have nonempty: "cs \<noteq> []"
    using len range lohi by auto
  have agents': "bear_agents m' = bear_agents m @ cs"
    using flags_only_fields(6) [OF fl] agents6 by simp
  have "cubs (bear_at m' self) = Some cs"
    using flags_only_fields(3) [OF fl, of self] self6 by (simp add: bear_at_def)
  moreover have "energy (bear_at m' self) = energy (bear_at m self) / 2"
    using flags_only_fields(5) [OF fl, of self] self6 energy2 by (simp add: bear_at_def)
  moreover have "does_care_after_cubs (bear_at m' self)"
    using caring nonempty by (simp add: bear_at_def)
  moreover have "\<forall>cub\<in>set cs.
           energy (bear_at m' cub) = energy (bear_at m self) / 2 / real_of_int cub_cnt
           \<and> is_under_parental_care (bear_at m' cub)
           \<and> mother (bear_at m' cub) = Some self
           \<and> cub \<in> set (bear_agents m')"
  proof
    fix cub assume cub: "cub \<in> set cs"
    then have bounds: "heap_size m \<le> cub" "cub < heap_size m + nat cub_cnt"
      by (simp_all add: cs_def)
    with alloc have ne: "cub \<noteq> self" by simp
    from new3 bounds have "cub_of m2 self father cub_cnt (heap m3 cub)"
      by simp
    then have "cub_of m2 self father cub_cnt (heap m6 cub)"
      using other6 [OF ne] by simp
    then have "energy (heap m6 cub) = energy (heap m self) / 2 / real_of_int cub_cnt"
      "mother (heap m6 cub) = Some self"
      using energy2 by (simp_all add: cub_of_def)
    then have "energy (heap m' cub) = energy (heap m self) / 2 / real_of_int cub_cnt"
      "mother (heap m' cub) = Some self"
      using flags_only_fields(5) [OF fl, of cub] flags_only_more_fields(1) [OF fl, of cub]
      by simp_all
    then show "energy (bear_at m' cub) = energy (bear_at m self) / 2 / real_of_int cub_cnt
           \<and> is_under_parental_care (bear_at m' cub)
           \<and> mother (bear_at m' cub) = Some self
           \<and> cub \<in> set (bear_agents m')"
      using under cub agents' by (simp add: bear_at_def)
  qed
  ultimately show ?thesis
    using run range len agents' cs_def unfolding cub_cnt_def lo_def hi_def bear_at_def
    by blast
qed

theorem give_birth_litter_witness:
  "\<exists>m'. give_birth 1 0 couple = Inr m'
     \<and> cubs (bear_at m' 1) = Some [2, 3, 4]
     \<and> energy (bear_at m' 1) = 5
     \<and> does_care_after_cubs (bear_at m' 1)
     \<and> bear_agents m' = [0, 1, 2, 3, 4]
     \<and> energy (bear_at m' 3) = 5 / 3
     \<and> is_under_parental_care (bear_at m' 3)"
proof -
  have "1 < heap_size couple" "0 < heap_size couple" "is_female (bear_at couple 1)"
    "1 \<le> lower_cub_limit (bear_at couple 1)"
    "lower_cub_limit (bear_at couple 1) < upper_cub_limit (bear_at couple 1)"
    "lower_parental_care_limit (bear_at couple 1) < upper_parental_care_limit (bear_at couple 1)"
    by (simp_all add: couple_def example_defs store_defs)
  from give_birth_litter [OF this] obtain m' cub_cnt cs where
    run: "give_birth 1 0 couple = Inr m'" and
    cnt: "cub_cnt = lower_cub_limit (bear_at couple 1)
          + int (shd (index_draws (rand couple))
              mod nat (upper_cub_limit (bear_at couple 1) - lower_cub_limit (bear_at couple 1)))" and
    cs: "cs = [heap_size couple ..< heap_size couple + nat cub_cnt]" and
    mother: "cubs (bear_at m' 1) = Some cs" "energy (bear_at m' 1) = energy (bear_at couple 1) / 2"
      "does_care_after_cubs (bear_at m' 1)" "bear_agents m' = bear_agents couple @ cs" and
    cubs: "\<forall>cub\<in>set cs.
           energy (bear_at m' cub) = energy (bear_at couple 1) / 2 / real_of_int cub_cnt
           \<and> is_under_parental_care (bear_at m' cub)
           \<and> mother (bear_at m' cub) = Some 1
           \<and> cub \<in> set (bear_agents m')"
    by blast
  have cnt3: "cub_cnt = 3"
    using cnt by (simp add: couple_def example_defs store_defs)
  have cs3: "cs = [2, 3, 4]"
    using cs cnt3 by (simp add: couple_def example_defs upt_rec)
  from cubs cs3 have "energy (bear_at m' 3) = energy (bear_at couple 1) / 2 / real_of_int cub_cnt"
    "is_under_parental_care (bear_at m' 3)"
    by simp_all
  with run mother cs3 cnt3 show ?thesis
    by (simp add: couple_def example_defs store_defs)
qed

section \<open>Litter limits of reachable bears\<close>

lemma same_limits_refl: "same_limits m m"
  by (simp add: same_limits_def)

lemma same_limits_trans: "same_limits m m' \<Longrightarrow> same_limits m' m'' \<Longrightarrow> same_limits m m''"
  by (auto simp: same_limits_def)

lemma same_limits_ok: "same_limits m m' \<Longrightarrow> limits_ok m \<Longrightarrow> limits_ok m'"
  by (auto simp: same_limits_def limits_ok_def good_limits_def)

lemma flags_only_same_limits: "flags_only m m' \<Longrightarrow> same_limits m m'"
  using flags_only_more_fields(2,3,4) [of m m'] flags_only_fields(6) [of m m']
  by (simp add: same_limits_def)

lemma update_same_limits: "same_limits m (update a m)"
  by (simp add: same_limits_def update_def modify_bear_def)

lemma gain_xp_same_limits: "same_limits m (modify_bear a (gain_xp x) m)"
  by (simp add: same_limits_def gain_xp_def modify_bear_def)

lemma after_draws_same_limits: "same_limits m (after_draws m)"
  by (simp add: same_limits_def after_draws_def)

lemma random_random_same_limits: "same_limits m (snd (random_random m))"
  by (simp add: same_limits_def random_random_def)

lemma remove_bear_same_limits: "schedule_remove_bear a m = Inr m' \<Longrightarrow> same_limits m m'"
  by (auto simp: same_limits_def schedule_remove_bear_def split: if_splits)

lemma bear_die_same_limits: "bear_die self m = Inr m' \<Longrightarrow> same_limits m m'"
  using bear_die_flags_only flags_only_same_limits remove_bear_same_limits same_limits_trans
  by blast

lemma hunt_same_limits:
  assumes "hunt self sheep assistant m = Inr m'"
  shows "same_limits m m'"
proof -
  from assms obtain m2 where "m' = update self m2" "same_limits m m2"
    by (auto simp: hunt_def Let_def and_then_Inr_iff random_random_def sheep_die_def
        schedule_remove_sheep_def modify_bear_def gain_xp_def same_limits_def split: if_splits)
  then show ?thesis
    using update_same_limits same_limits_trans by blast
qed

lemma attack_same_limits:
  assumes "attack self other m = Inr m'"
  shows "same_limits m m'"
proof -
  from assms obtain w v x m3 where
    die: "bear_die w (modify_bear v (gain_xp x) (after_draws m)) = Inr m3" and
    m': "m' = update v m3"
    unfolding attack_unfold by (auto simp: and_then_Inr_iff split: if_splits)
  have "same_limits m (modify_bear v (gain_xp x) (after_draws m))"
    using after_draws_same_limits gain_xp_same_limits same_limits_trans by blast
  with die m' show ?thesis
    using bear_die_same_limits update_same_limits same_limits_trans by blast
qed

lemma step_hunt_same_limits:
  assumes "step_hunt self m = Inr m'"
  shows "same_limits m m'"
proof (cases "length (get_sheep m) > 0")
  case True
  with assms obtain sh as m1 where "hunt self sh as m1 = Inr m'" "same_limits m m1"
    by (auto simp: step_hunt_def Let_def and_then_Inr_iff random_choice_def same_limits_def
        split: if_splits)
  then show ?thesis
    using hunt_same_limits same_limits_trans by blast
next
  case False
  with assms show ?thesis
    by (simp add: step_hunt_def same_limits_refl)
qed

lemma step_care_same_limits:
  assumes "step_care self m = Inr m'"
  shows "same_limits m m'"
  using assms for_each_chase_flags_only [THEN flags_only_same_limits]
  by (auto simp: step_care_def same_limits_def modify_bear_def
      split: if_splits option.splits)

lemma attempt_to_mate_same_limits: "same_limits m (snd (attempt_to_mate male female m))"
  by (simp add: attempt_to_mate_def random_random_def same_limits_def Let_def)

lemma bond_loop_frame:
  "for_each cs (\<lambda>cub mm. bond_with_cub mo cub (schedule_add_bear cub mm)) m = Inr m' \<Longrightarrow>
   flags_only (m\<lparr>bear_agents := bear_agents m @ cs\<rparr>) m'"
proof (induction cs arbitrary: m)
  case Nil
  then show ?case by (simp add: flags_only_refl)
next
  case (Cons c cs)
  then obtain m1 where
    b1: "bond_with_cub mo c (schedule_add_bear c m) = Inr m1" and
    run: "for_each cs (\<lambda>cub mm. bond_with_cub mo cub (schedule_add_bear cub mm)) m1 = Inr m'"
    by (auto simp: and_then_Inr_iff)
  from b1 have f1: "flags_only (m\<lparr>bear_agents := bear_agents m @ [c]\<rparr>) m1"
    and agents1: "bear_agents m1 = bear_agents m @ [c]"
    by (auto simp: bond_with_cub_def schedule_add_bear_def flags_only_def modify_bear_def
        split: if_splits)
  from flags_only_agents [OF f1, of "bear_agents m @ c # cs"]
  have "flags_only (m\<lparr>bear_agents := bear_agents m @ c # cs\<rparr>)
          (m1\<lparr>bear_agents := bear_agents m @ c # cs\<rparr>)"
    by simp
  moreover have "flags_only (m1\<lparr>bear_agents := bear_agents m @ c # cs\<rparr>) m'"
    using Cons.IH [OF run] agents1 by simp
  ultimately show ?case
    by (rule flags_only_trans)
qed

lemma integers_Inr:
  "integers low high m = Inr (v, m') \<Longrightarrow>
   m' = m\<lparr>rand := (rand m)\<lparr>index_draws := stl (index_draws (rand m))\<rparr>\<rparr>
   \<and> low \<le> v \<and> v < high"
proof -
  assume a: "integers low high m = Inr (v, m')"
  then have lt: "low < high"
    by (auto simp: integers_def split: if_splits)
  then have "shd (index_draws (rand m)) mod nat (high - low) < nat (high - low)"
    by simp
  then have "low + int (shd (index_draws (rand m)) mod nat (high - low)) < high"
    by linarith
  with a lt show ?thesis
    by (auto simp: integers_def split: if_splits)
qed

lemma averaged_good_limits:
  assumes "good_limits f" and "good_limits s"
    and "lower_cub_limit b = (lower_cub_limit f + lower_cub_limit s) div 2"
    and "upper_cub_limit b = (upper_cub_limit f + upper_cub_limit s) div 2"
  shows "good_limits b"
  using assms unfolding good_limits_def by linarith

lemma give_birth_limits_ok:
  assumes run: "give_birth self father m = Inr m'" and ok: "limits_ok m"
    and alloc: "self < heap_size m" "father < heap_size m"
  shows "limits_ok m' \<and> heap_size m \<le> heap_size m'"
proof -
  from run obtain cnt m1 cs m3 countdown m5 where
    i1: "integers (lower_cub_limit (bear_at m self)) (upper_cub_limit (bear_at m self)) m
           = Inr (cnt, m1)" and
    mk: "make_cubs (nat cnt) cnt self father
           (modify_bear self (\<lambda>b. b\<lparr>energy := energy b / 2\<rparr>) m1) = Inr (cs, m3)" and
    i2: "integers (lower_parental_care_limit (bear_at (modify_bear self (\<lambda>b. b\<lparr>cubs := Some cs\<rparr>) m3) self))
           (upper_parental_care_limit (bear_at (modify_bear self (\<lambda>b. b\<lparr>cubs := Some cs\<rparr>) m3) self))
           (modify_bear self (\<lambda>b. b\<lparr>cubs := Some cs\<rparr>) m3) = Inr (countdown, m5)" and
    bd: "for_each cs (\<lambda>cub mm. bond_with_cub self cub (schedule_add_bear cub mm))
           (modify_bear self (\<lambda>b. b\<lparr>parental_care_countdown := Some countdown\<rparr>) m5) = Inr m'"
    by (auto simp: give_birth_def and_then_Inr_iff Let_def)
  define m2 where "m2 = modify_bear self (\<lambda>b. b\<lparr>energy := energy b / 2\<rparr>) m1"
  define m6 where
    "m6 = modify_bear self (\<lambda>b. b\<lparr>parental_care_countdown := Some countdown\<rparr>) m5"
  have m1: "m1 = m\<lparr>rand := (rand m)\<lparr>index_draws := stl (index_draws (rand m))\<rparr>\<rparr>"
    using integers_Inr [OF i1] by simp
  have size2: "heap_size m2 = heap_size m" and agents2: "bear_agents m2 = bear_agents m"
    and lim2: "\<And>a. lower_cub_limit (heap m2 a) = lower_cub_limit (heap m a)"
      "\<And>a. upper_cub_limit (heap m2 a) = upper_cub_limit (heap m a)"
    by (simp_all add: m2_def m1 modify_bear_def)
  from make_cubs_spec [of self m2 father "nat cnt" cnt] alloc size2 mk obtain
    cs: "cs = [heap_size m ..< heap_size m + nat cnt]" and
    size3: "heap_size m3 = heap_size m + nat cnt" and
    agents3: "bear_agents m3 = bear_agents m2" and
    frame3: "\<forall>a<heap_size m. heap m3 a = heap m2 a" and
    new3: "\<forall>c. heap_size m \<le> c \<longrightarrow> c < heap_size m + nat cnt
            \<longrightarrow> cub_of m2 self father cnt (heap m3 c)"
    unfolding m2_def by auto
  have m5: "m5 = (modify_bear self (\<lambda>b. b\<lparr>cubs := Some cs\<rparr>) m3)
      \<lparr>rand := (rand m3)\<lparr>index_draws := stl (index_draws (rand m3))\<rparr>\<rparr>"
    using integers_Inr [OF i2] by (simp add: modify_bear_def)
  have size6: "heap_size m6 = heap_size m + nat cnt" and agents6: "bear_agents m6 = bear_agents m"
    and lim6: "\<And>a. lower_cub_limit (heap m6 a) = lower_cub_limit (heap m3 a)"
      "\<And>a. upper_cub_limit (heap m6 a) = upper_cub_limit (heap m3 a)"
    using size3 agents3 agents2 by (simp_all add: m6_def m5 modify_bear_def)
  from bond_loop_frame [OF bd [folded m6_def]]
  have fl: "flags_only (m6\<lparr>bear_agents := bear_agents m6 @ cs\<rparr>) m'" .
  have size': "heap_size m' = heap_size m + nat cnt"
    using flags_only_more_fields(4) [OF fl] size6 by simp
  have agents': "bear_agents m' = bear_agents m @ cs"
    using flags_only_fields(6) [OF fl] agents6 by simp
  have lim': "\<And>a. lower_cub_limit (heap m' a) = lower_cub_limit (heap m3 a)"
      "\<And>a. upper_cub_limit (heap m' a) = upper_cub_limit (heap m3 a)"
    using flags_only_more_fields(2,3) [OF fl] lim6 by simp_all
  have good: "good_limits (heap m self)" "good_limits (heap m father)"
    using ok alloc by (simp_all add: limits_ok_def)
  have "\<forall>a\<in>set (bear_agents m'). a < heap_size m'"
    using ok agents' size' cs by (auto simp: limits_ok_def)
  moreover have "\<forall>a<heap_size m'. good_limits (heap m' a)"
  proof (intro allI impI)
    fix a assume a: "a < heap_size m'"
    show "good_limits (heap m' a)"
    proof (cases "a < heap_size m")
      case True
      then have "good_limits (heap m a)"
        using ok by (simp add: limits_ok_def)
      then show ?thesis
        using lim' [of a] frame3 True lim2 [of a] by (simp add: good_limits_def)
    next
      case False
      with a size' new3 have "cub_of m2 self father cnt (heap m3 a)"
        by simp
      then have "lower_cub_limit (heap m' a)
          = (lower_cub_limit (heap m father) + lower_cub_limit (heap m self)) div 2"
        "upper_cub_limit (heap m' a)
          = (upper_cub_limit (heap m father) + upper_cub_limit (heap m self)) div 2"
        using lim' [of a] lim2 by (simp_all add: cub_of_def)
      with averaged_good_limits [OF good(2) good(1)] show ?thesis
        by simp
    qed
  qed
  ultimately show ?thesis
    using size' by (simp add: limits_ok_def)
qed

lemma random_choice_Inr:
  "random_choice xs m = Inr (x, m') \<Longrightarrow>
   x \<in> set xs \<and> m' = m\<lparr>rand := (rand m)\<lparr>index_draws := stl (index_draws (rand m))\<rparr>\<rparr>"
  by (auto simp: random_choice_def split: if_splits)

lemma encounter_limits_ok:
  assumes run: "encounter self m = Inr m'" and ok: "limits_ok m" and alloc: "self < heap_size m"
  shows "limits_ok m' \<and> heap_size m \<le> heap_size m'"
proof (cases "length (filter (\<lambda>bear. bear \<noteq> self
                \<and> is_under_parental_care (bear_at m bear) = False) (get_bears m)) > 0")
  case False
  with run ok show ?thesis
    by (simp add: encounter_def Let_def)
next
  case True
  define body where "body = (\<lambda>other m1.
             if season m1 = Mating
                \<and> is_female (bear_at m1 other) \<noteq> is_female (bear_at m1 self) then
               (let (did_make_cubs, m2) =
                      (if is_female (bear_at m1 self) then attempt_to_mate other self m1
                       else attempt_to_mate self other m1)
                in if did_make_cubs then
                     (if is_female (bear_at m2 self) then give_birth self other m2
                      else give_birth other self m2)
                   else Inr m2)
             else if behavior (bear_at m1 self) = Aggressive then attack self other m1
             else Inr m1)"
  define candidates where "candidates = filter (\<lambda>bear. bear \<noteq> self
                \<and> is_under_parental_care (bear_at m bear) = False) (get_bears m)"
  have "encounter self m
      = and_then (random_choice candidates m) (\<lambda>(other, m1). body other m1)"
    using True unfolding encounter_def body_def candidates_def Let_def by simp
  with run obtain other m1 where
    choice: "random_choice candidates m = Inr (other, m1)" and
    body: "body other m1 = Inr m'"
    by (auto simp: and_then_Inr_iff)
  from random_choice_Inr [OF choice] have
    other: "other \<in> set (bear_agents m)" and
    m1_def: "m1 = m\<lparr>rand := (rand m)\<lparr>index_draws := stl (index_draws (rand m))\<rparr>\<rparr>"
    by (simp_all add: candidates_def get_bears_def)
  have same1: "same_limits m m1"
    by (simp add: same_limits_def m1_def)
  have ok1: "limits_ok m1"
    using same1 ok by (rule same_limits_ok)
  have alloc1: "self < heap_size m1" "other < heap_size m1"
    using alloc other ok by (simp_all add: m1_def limits_ok_def)
  have size1: "heap_size m1 = heap_size m"
    by (simp add: m1_def)
  show ?thesis
  proof (cases "season m1 = Mating
                \<and> is_female (bear_at m1 other) \<noteq> is_female (bear_at m1 self)")
    case mating: True
    define r where "r = (if is_female (bear_at m1 self) then attempt_to_mate other self m1
                       else attempt_to_mate self other m1)"
    obtain did_make_cubs m2 where r: "r = (did_make_cubs, m2)"
      by (cases r)
    have same2: "same_limits m1 m2"
      using attempt_to_mate_same_limits [of m1 other self]
        attempt_to_mate_same_limits [of m1 self other] r
      by (auto simp: r_def split: if_splits)
    have ok2: "limits_ok m2"
      using same2 ok1 by (rule same_limits_ok)
    have size2: "heap_size m2 = heap_size m"
      using same2 size1 by (simp add: same_limits_def)
    have "body other m1 =
        (let (did_make_cubs, m2) = r
         in if did_make_cubs then
              (if is_female (bear_at m2 self) then give_birth self other m2
               else give_birth other self m2)
            else Inr m2)"
      unfolding body_def r_def using mating by (rule if_P)
    with body r have
      "(if did_make_cubs then
          (if is_female (bear_at m2 self) then give_birth self other m2
           else give_birth other self m2)
        else Inr m2) = Inr m'"
      by simp
    then show ?thesis
      using give_birth_limits_ok [of self other m2 m']
        give_birth_limits_ok [of other self m2 m'] ok2 size2 alloc1 size1
      by (auto split: if_splits)
  next
    case False
    with body have "attack self other m1 = Inr m' \<or> m' = m1"
      by (auto simp: body_def split: if_splits)
    then have same': "same_limits m1 m'"
      using attack_same_limits same_limits_refl by blast
    then have "limits_ok m'"
      using ok1 by (rule same_limits_ok)
    moreover have "heap_size m' = heap_size m"
      using same' size1 by (simp add: same_limits_def)
    ultimately show ?thesis
      by simp
  qed
qed

lemma encounters_limits_ok:
  "encounters n self m = Inr m' \<Longrightarrow> limits_ok m \<Longrightarrow> self < heap_size m \<Longrightarrow>
   limits_ok m' \<and> heap_size m \<le> heap_size m'"
proof (induction n arbitrary: m)
  case 0
  then show ?case by simp
next
  case (Suc n)
  from Suc.prems(1) obtain m1 where
    one: "encounter self m = Inr m1" and rest: "encounters n self m1 = Inr m'"
    by (auto simp: and_then_Inr_iff)
  from encounter_limits_ok [OF one Suc.prems(2,3)]
  have ok1: "limits_ok m1" and size1: "heap_size m \<le> heap_size m1"
    by simp_all
  with Suc.IH [OF rest ok1] Suc.prems(3) show ?case
    by simp
qed

lemma generate_encounters_limits_ok:
  assumes "generate_encounters self m = Inr m'" and "limits_ok m" and "self < heap_size m"
  shows "limits_ok m' \<and> heap_size m \<le> heap_size m'"
proof -
  define m1 where "m1 = m\<lparr>rand := (rand m)\<lparr>poisson_draws := stl (poisson_draws (rand m))\<rparr>\<rparr>"
  have ok1: "limits_ok m1" "self < heap_size m1" "heap_size m1 = heap_size m"
    using assms(2,3) by (simp_all add: m1_def limits_ok_def)
  from assms(1) have "m' = m \<or> (\<exists>n. encounters n self m1 = Inr m')"
    by (auto simp: generate_encounters_def and_then_Inr_iff poisson_def m1_def split: if_splits)
  then show ?thesis
    using encounters_limits_ok [of _ self m1 m'] ok1 assms(2) by auto
qed

lemma bear_step_limits_ok:
  assumes run: "bear_step self m = Inr m'" and ok: "limits_ok m" and alloc: "self < heap_size m"
  shows "limits_ok m'"
proof -
  define m0 where "m0 = modify_bear self (\<lambda>b. b\<lparr>energy := energy b - 1\<rparr>) m"
  from run obtain m1 m2 m3 where
    hunt: "step_hunt self m0 = Inr m1" and care: "step_care self m1 = Inr m2" and
    enc: "(if \<not> is_under_parental_care (bear_at m2 self) then generate_encounters self m2
        else Inr m2) = Inr m3" and
    fin: "(if energy (bear_at m3 self) < 0 then bear_die self m3 else Inr m3) = Inr m'"
    by (auto simp: bear_step_def and_then_Inr_iff m0_def)
  have "same_limits m m0"
    by (simp add: same_limits_def m0_def modify_bear_def)
  then have "same_limits m m2"
    using step_hunt_same_limits [OF hunt] step_care_same_limits [OF care] same_limits_trans
    by blast
  then have ok2: "limits_ok m2" and alloc2: "self < heap_size m2"
    using ok alloc same_limits_ok [of m m2] by (simp_all add: same_limits_def)
  have ok3: "limits_ok m3"
    using enc generate_encounters_limits_ok [of self m2 m3] ok2 alloc2
    by (auto split: if_splits)
  from fin have "same_limits m3 m'"
    using bear_die_same_limits same_limits_refl by (auto split: if_splits)
  then show ?thesis
    using ok3 same_limits_ok by blast
qed

lemma reachable_limits_ok: "reachable m \<Longrightarrow> limits_ok m"
proof (induction rule: reachable.induct)
  case (start m)
  then show ?case by (simp add: limits_ok_def)
next
  case (founder_added m uid e bh a m')
  then show ?case
    by (cases bh)
      (auto simp: limits_ok_def Bear_init_unfold schedule_add_bear_def good_limits_def
        inherited_limits_def less_Suc_eq)
next
  case (sheep_added m sh)
  then show ?case by (simp add: limits_ok_def schedule_add_sheep_def)
next
  case (identifier_set m uid)
  then show ?case by (simp add: limits_ok_def)
next
  case (season_set m s)
  then show ?case by (simp add: limits_ok_def)
next
  case (sheep_stepped m self)
  then show ?case
    by (simp add: limits_ok_def sheep_step_def random_random_def generate_id_def
        schedule_add_sheep_def Let_def)
next
  case (bear_stepped m self m')
  then show ?case
    using bear_step_limits_ok by blast
qed

text \<open>
  Claim C10. Every bear of a reachable store, created by the constructor of the model or
  born from two bears of the store, has a \<open>lower_cub_limit\<close> of at least 1 and an
  \<open>upper_cub_limit\<close> above it. Hence the draw of the litter size in \<open>give_birth\<close> raises
  no error and yields at least one cub, so that the energy is divided by a positive number.
\<close>

theorem reachable_bear_litter_limits:
  assumes "reachable m" and "a < heap_size m"
  shows "1 \<le> lower_cub_limit (bear_at m a)
     \<and> lower_cub_limit (bear_at m a) < upper_cub_limit (bear_at m a)
     \<and> (\<exists>cub_cnt m1.
           integers (lower_cub_limit (bear_at m a)) (upper_cub_limit (bear_at m a)) m
             = Inr (cub_cnt, m1)
           \<and> 1 \<le> cub_cnt)"
proof -
  from reachable_limits_ok [OF assms(1)] assms(2)
  have good: "1 \<le> lower_cub_limit (bear_at m a)"
    "lower_cub_limit (bear_at m a) < upper_cub_limit (bear_at m a)"
    by (simp_all add: limits_ok_def good_limits_def bear_at_def)
  then show ?thesis
    by (simp add: integers_def)
qed

lemma reachable_mating_pair: "reachable mating_pair"
proof -
  define s0 where "s0 = empty_model
             \<lparr>season := Mating,
              rand := \<lparr>uniform_draws = (7 / 10) ## (2 / 10) ## (1 / 100) ## sconst (7 / 10),
                       exponential_draws = sconst 1, index_draws = sconst 0,
                       poisson_draws = sconst 1\<rparr>\<rparr>"
  define s1 where "s1 = schedule_add_bear 0 (snd (Bear_init 1 10 Aggressive None None s0))"
  have "reachable s0"
    by (rule reachable.start) (simp_all add: s0_def empty_model_def)
  moreover have "Bear_init 1 10 Aggressive None None s0
      = (0, snd (Bear_init 1 10 Aggressive None None s0))"
    by (simp add: Bear_init_unfold s0_def empty_model_def)
  ultimately have "reachable s1"
    unfolding s1_def by (rule reachable.founder_added)
  moreover have "Bear_init 2 10 Coward None None s1
      = (1, snd (Bear_init 2 10 Coward None None s1))"
    by (simp add: Bear_init_unfold s1_def s0_def empty_model_def schedule_add_bear_def)
  ultimately have "reachable (schedule_add_bear 1 (snd (Bear_init 2 10 Coward None None s1)))"
    by (rule reachable.founder_added)
  then show ?thesis
    by (simp add: mating_pair_def s1_def s0_def)
qed

theorem reachable_bear_litter_limits_witness:
  "\<exists>m'. bear_step 1 mating_pair = Inr m' \<and> reachable m' \<and> 2 < heap_size m'
      \<and> mother (bear_at m' 2) = Some 1
      \<and> 1 \<le> lower_cub_limit (bear_at m' 2)
      \<and> lower_cub_limit (bear_at m' 2) < upper_cub_limit (bear_at m' 2)"
proof -
  obtain m' where step: "bear_step 1 mating_pair = Inr m'" and alloc: "2 < heap_size m'"
    and cub: "mother (bear_at m' 2) = Some 1"
    by (simp add: mating_pair_def bear_step_def step_hunt_def step_care_def
        generate_encounters_def encounter_def attempt_to_mate_def chance_to_reproduce_def
        give_birth_def generate_id_def Bear_init_unfold inherited_limits_def bond_with_cub_def
        and_then_def Let_def empty_model_def store_defs schedule_defs draw_defs)
  have "1 < heap_size mating_pair"
    by (simp add: mating_pair_def Bear_init_unfold schedule_add_bear_def empty_model_def)
  with reachable_mating_pair have reach: "reachable m'"
    using step by (rule reachable.bear_stepped)
  from reachable_bear_litter_limits [OF reach alloc] step reach alloc cub show ?thesis
    by blast
qed

end
